theory Spec2Isabelle
  imports Complex_Main "HOL-Library.AList"
begin

section \<open>JavaScript values as the pipeline sees them\<close>

text \<open>
  The payload handed to the validator is the result of \<^verbatim>\<open>JSON.parse\<close>, typed \<^verbatim>\<open>any\<close>
  in the source. A number is an IEEE double: the model keeps the three special values
  apart and takes every finite value as a rational. Comparisons are exact on doubles, and
  so is the score arithmetic, which stays within small integers. A product or a
  difference of doubles is the exact result rounded to the nearest double; the rounding
  is not computed here but taken from the environment (\<open>RoundDouble\<close> below).
\<close>

datatype jsnum = NaN | NegInf | Fin rat | PosInf

datatype jsval =
    JUndefined
  | JNull
  | JBool bool
  | JNum jsnum
  | JStr string
  | JArr "jsval list"
  | JObj "(string \<times> jsval) list"

text \<open>\<^verbatim>\<open>a < b\<close> on numbers: every comparison with NaN is false.\<close>

fun js_lt :: "jsnum \<Rightarrow> jsnum \<Rightarrow> bool" where
  "js_lt NaN _ = False"
| "js_lt _ NaN = False"
| "js_lt PosInf _ = False"
| "js_lt _ NegInf = False"
| "js_lt NegInf _ = True"
| "js_lt _ PosInf = True"
| "js_lt (Fin a) (Fin b) = (a < b)"

text \<open>\<^verbatim>\<open>Math.abs\<close>, which is exact.\<close>

fun js_abs :: "jsnum \<Rightarrow> jsnum" where
  "js_abs NaN = NaN"
| "js_abs NegInf = PosInf"
| "js_abs PosInf = PosInf"
| "js_abs (Fin a) = Fin \<bar>a\<bar>"

text \<open>Truthiness, as \<^verbatim>\<open>!x\<close>, \<^verbatim>\<open>x ? a : b\<close> and \<^verbatim>\<open>x || y\<close> read it.\<close>

fun truthy :: "jsval \<Rightarrow> bool" where
  "truthy JUndefined = False"
| "truthy JNull = False"
| "truthy (JBool b) = b"
| "truthy (JNum NaN) = False"
| "truthy (JNum (Fin a)) = (a \<noteq> 0)"
| "truthy (JNum _) = True"
| "truthy (JStr s) = (s \<noteq> [])"
| "truthy (JArr _) = True"
| "truthy (JObj _) = True"

definition js_or :: "jsval \<Rightarrow> jsval \<Rightarrow> jsval" where
  "js_or x y = (if truthy x then x else y)"

text \<open>
  Reading a property. On \<^verbatim>\<open>null\<close> and \<^verbatim>\<open>undefined\<close> the read throws a TypeError,
  which \<open>nullish\<close> tests before the first read. On every other value it yields the own
  property of an object and \<^verbatim>\<open>undefined\<close> elsewhere: none of the names the pipeline
  reads (\<^verbatim>\<open>value\<close>, \<^verbatim>\<open>unitName\<close>, \<^verbatim>\<open>timestamp\<close>, \<^verbatim>\<open>deviceId\<close>, \<^verbatim>\<open>bikeId\<close>,
  \<^verbatim>\<open>metadata\<close>, \<^verbatim>\<open>reportedAt\<close>, \<^verbatim>\<open>messageId\<close>, \<^verbatim>\<open>version\<close>, \<^verbatim>\<open>bikeName\<close>) is defined
  on a prototype of a parsed value.
\<close>

fun nullish :: "jsval \<Rightarrow> bool" where
  "nullish JUndefined = True"
| "nullish JNull = True"
| "nullish _ = False"

fun get_prop :: "jsval \<Rightarrow> string \<Rightarrow> jsval" where
  "get_prop (JObj kvs) k = (case map_of kvs k of Some v \<Rightarrow> v | None \<Rightarrow> JUndefined)"
| "get_prop _ k = JUndefined"

text \<open>
  The implicit conversions of the language. What they do on \<^verbatim>\<open>undefined\<close>, \<^verbatim>\<open>null\<close>
  and the booleans is fixed here. Parsing a string as a number or as a date, printing a
  number and clipping a time value never throw and are taken from the environment as
  they are. An array or an object is converted through its \<^verbatim>\<open>toString\<close>, which for a
  parsed value yields a string or raises a TypeError (an own \<^verbatim>\<open>toString\<close> property
  that is not callable): \<open>ObjectToPrimitive\<close>, with \<open>None\<close> for the TypeError.
\<close>

record coercions =
  RoundDouble :: "rat \<Rightarrow> jsnum"
  StringToNumber :: "string \<Rightarrow> jsnum"
  NumberToString :: "jsnum \<Rightarrow> string"
  ObjectToPrimitive :: "jsval \<Rightarrow> string option"
  ParseDate :: "string \<Rightarrow> jsnum"
  TimeClip :: "jsnum \<Rightarrow> jsnum"

text \<open>
  \<^verbatim>\<open>x * 1000\<close> and \<^verbatim>\<open>a - b\<close> with a finite \<open>a\<close>: the exact result, rounded.
\<close>

fun js_times_1000 :: "coercions \<Rightarrow> jsnum \<Rightarrow> jsnum" where
  "js_times_1000 cz (Fin a) = RoundDouble cz (a * 1000)"
| "js_times_1000 cz n = n"

fun js_minus_from :: "coercions \<Rightarrow> rat \<Rightarrow> jsnum \<Rightarrow> jsnum" where
  "js_minus_from cz a NaN = NaN"
| "js_minus_from cz a NegInf = PosInf"
| "js_minus_from cz a PosInf = NegInf"
| "js_minus_from cz a (Fin b) = RoundDouble cz (a - b)"

fun ToNumber :: "coercions \<Rightarrow> jsval \<Rightarrow> jsnum option" where
  "ToNumber cz JUndefined = Some NaN"
| "ToNumber cz JNull = Some (Fin 0)"
| "ToNumber cz (JBool b) = Some (Fin (if b then 1 else 0))"
| "ToNumber cz (JNum n) = Some n"
| "ToNumber cz (JStr s) = Some (StringToNumber cz s)"
| "ToNumber cz v = map_option (StringToNumber cz) (ObjectToPrimitive cz v)"

fun ToString :: "coercions \<Rightarrow> jsval \<Rightarrow> string option" where
  "ToString cz JUndefined = Some ''undefined''"
| "ToString cz JNull = Some ''null''"
| "ToString cz (JBool b) = Some (if b then ''true'' else ''false'')"
| "ToString cz (JNum n) = Some (NumberToString cz n)"
| "ToString cz (JStr s) = Some s"
| "ToString cz v = ObjectToPrimitive cz v"

text \<open>\<^verbatim>\<open>new Date(x)\<close>, as its time value in milliseconds (NaN for an invalid date).\<close>

fun ToDate :: "coercions \<Rightarrow> jsval \<Rightarrow> jsnum option" where
  "ToDate cz (JStr s) = Some (ParseDate cz s)"
| "ToDate cz (JArr xs) = map_option (ParseDate cz) (ObjectToPrimitive cz (JArr xs))"
| "ToDate cz (JObj kvs) = map_option (ParseDate cz) (ObjectToPrimitive cz (JObj kvs))"
| "ToDate cz v = map_option (TimeClip cz) (ToNumber cz v)"

section \<open>Topic Router\<close>

text \<open>\<^verbatim>\<open>topic.split('.')\<close>: the segments between the dots, never an empty array.\<close>

fun split_dot :: "string \<Rightarrow> string list" where
  "split_dot [] = [[]]"
| "split_dot (c # cs) =
     (if c = CHR ''.'' then [] # split_dot cs
      else (case split_dot cs of [] \<Rightarrow> [[c]] | p # ps \<Rightarrow> (c # p) # ps))"

text \<open>
  Modelled from the spec: the enum \<^verbatim>\<open>DeviceType\<close> of \<^verbatim>\<open>models/device\<close>, which the
  sources import and do not contain; one member for each of the seven sensor types.
\<close>

datatype DeviceType =
    DeviceType_heartRate
  | DeviceType_cadence
  | DeviceType_speed
  | DeviceType_power
  | DeviceType_resistance
  | DeviceType_incline
  | DeviceType_fan

record validationRules =
  min_rule :: int
  max_rule :: int
  unit_rule :: string

definition ENHANCED_DEVICE_TYPE_MAP :: "(string \<times> DeviceType \<times> validationRules) list" where
  "ENHANCED_DEVICE_TYPE_MAP =
    [(''heartrate'', DeviceType_heartRate, \<lparr>min_rule = 30, max_rule = 220, unit_rule = ''bpm''\<rparr>),
     (''cadence'', DeviceType_cadence, \<lparr>min_rule = 0, max_rule = 200, unit_rule = ''rpm''\<rparr>),
     (''speed'', DeviceType_speed, \<lparr>min_rule = 0, max_rule = 80, unit_rule = ''kmh''\<rparr>),
     (''power'', DeviceType_power, \<lparr>min_rule = 0, max_rule = 2000, unit_rule = ''watts''\<rparr>),
     (''resistance'', DeviceType_resistance, \<lparr>min_rule = 0, max_rule = 100, unit_rule = ''percent''\<rparr>),
     (''incline'', DeviceType_incline, \<lparr>min_rule = - 50, max_rule = 50, unit_rule = ''percent''\<rparr>),
     (''fan'', DeviceType_fan, \<lparr>min_rule = 0, max_rule = 100, unit_rule = ''percent''\<rparr>)]"

text \<open>
  \<^verbatim>\<open>ENHANCED_DEVICE_TYPE_MAP\<close> is an object literal, so \<^verbatim>\<open>ENHANCED_DEVICE_TYPE_MAP[s]\<close>
  reads an own property first and then the properties every object inherits from
  \<^verbatim>\<open>Object.prototype\<close>. Each inherited member is a function or an object, hence truthy,
  and has neither a \<^verbatim>\<open>type\<close> nor a \<^verbatim>\<open>validationRules\<close> property.
\<close>

definition Object_prototype_keys :: "string list" where
  "Object_prototype_keys =
    [''constructor'', ''__proto__'', ''hasOwnProperty'', ''isPrototypeOf'',
     ''propertyIsEnumerable'', ''toLocaleString'', ''toString'', ''valueOf'',
     ''__defineGetter__'', ''__defineSetter__'', ''__lookupGetter__'', ''__lookupSetter__'']"

datatype deviceConfig = OwnConfig DeviceType validationRules | Inherited string

definition lookup_device_config :: "string \<Rightarrow> deviceConfig option" where
  "lookup_device_config s =
     (case map_of ENHANCED_DEVICE_TYPE_MAP s of
        Some (t, r) \<Rightarrow> Some (OwnConfig t r)
      | None \<Rightarrow> if s \<in> set Object_prototype_keys then Some (Inherited s) else None)"

record topicInfo =
  deviceId :: string
  deviceType :: "DeviceType option"
  deviceConfig :: deviceConfig
  isControlTopic :: bool

definition config_type :: "deviceConfig \<Rightarrow> DeviceType option" where
  "config_type c = (case c of OwnConfig t r \<Rightarrow> Some t | Inherited s \<Rightarrow> None)"

definition parseEnhancedKafkaTopic :: "string \<Rightarrow> topicInfo option" where
  "parseEnhancedKafkaTopic topic =
     (let topicParts = split_dot topic in
      if length topicParts \<ge> 3 \<and> topicParts ! 0 = ''bike'' then
        (case lookup_device_config (topicParts ! 2) of
           Some cfg \<Rightarrow>
             Some \<lparr>deviceId = topicParts ! 1,
                   deviceType = config_type cfg,
                   deviceConfig = cfg,
                   isControlTopic = (length topicParts > 3 \<and> topicParts ! 3 = ''control'')\<rparr>
         | None \<Rightarrow> None)
      else None)"



section \<open>Validator and quality scorer\<close>

text \<open>
  What the surroundings supply to one pass of the pipeline: the conversions above, one
  reading of the clock in milliseconds (\<^verbatim>\<open>Date.now()\<close>, \<^verbatim>\<open>new Date()\<close>), the
  generated message id, \<^verbatim>\<open>JSON.parse\<close> (\<open>None\<close> when it throws), whether the heartbeat
  call resolves, the outcome of each call of \<^verbatim>\<open>save()\<close> by attempt number (\<open>Some\<close> of the
  error when it rejects) and the draw of \<^verbatim>\<open>Math.random()\<close> at each attempt.
\<close>

record env =
  conv :: coercions
  now :: int
  genId :: string
  JSON_parse :: "string \<Rightarrow> jsval option"
  heartbeat_ok :: bool
  save_error :: "int \<Rightarrow> string option"
  random :: "int \<Rightarrow> rat"

text \<open>The entries of the error list; the interpolated parts of a message are its arguments.\<close>

datatype verror =
    InvalidValueField
  | InvalidUnitNameField
  | ValueOutOfRange string int int string
  | UnitMismatch string string
  | TimestampTooOldOrFuture
  | ValidationThrew

record enhancedData =
  source :: jsval
  value_num :: jsnum
  timestamp :: jsval
  reportedAt :: jsnum
  metadata :: jsval
  messageId :: jsval
  version :: jsval
  receivedAt :: int
  processedAt :: int
  qualityScore :: int
  anomalyDetected :: bool

record validationResult =
  isValid :: bool
  data :: "enhancedData option"
  qualityScore :: int
  errors :: "verror list"

text \<open>
  The running pair of the error list and the score. A statement that throws leaves the
  \<^verbatim>\<open>try\<close> block with the errors pushed so far (\<open>Inl\<close>).
\<close>

type_synonym scoring = "verror list \<times> int"

definition deduct :: "bool \<Rightarrow> verror list \<Rightarrow> int \<Rightarrow> scoring \<Rightarrow> scoring" where
  "deduct c es k s = (if c then (fst s @ es, snd s - k) else s)"

definition and_then :: "('e + 'a) \<Rightarrow> ('a \<Rightarrow> 'e + 'b) \<Rightarrow> 'e + 'b" where
  "and_then r f = (case r of Inl e \<Rightarrow> Inl e | Inr a \<Rightarrow> f a)"

fun is_number :: "jsval \<Rightarrow> bool" where
  "is_number (JNum n) = True"
| "is_number _ = False"

fun is_string :: "jsval \<Rightarrow> bool" where
  "is_string (JStr s) = True"
| "is_string _ = False"

text \<open>Required fields: \<^verbatim>\<open>value\<close> and \<^verbatim>\<open>unitName\<close>.\<close>

definition check_value :: "jsval \<Rightarrow> scoring \<Rightarrow> scoring" where
  "check_value d s =
     deduct (\<not> is_number (get_prop d ''value'') \<or> get_prop d ''value'' = JNum NaN)
       [InvalidValueField] 50 s"

definition check_unitName :: "jsval \<Rightarrow> scoring \<Rightarrow> scoring" where
  "check_unitName d s =
     deduct (\<not> truthy (get_prop d ''unitName'') \<or> \<not> is_string (get_prop d ''unitName''))
       [InvalidUnitNameField] 30 s"

text \<open>
  Value range. Destructuring \<^verbatim>\<open>deviceConfig.validationRules\<close> throws when the
  configuration is an inherited member, and the comparison converts the value to a
  number first.
\<close>

definition check_range :: "env \<Rightarrow> deviceConfig \<Rightarrow> jsval \<Rightarrow> scoring \<Rightarrow> verror list + scoring" where
  "check_range e cfg d s =
     (case cfg of
        Inherited k \<Rightarrow> Inl (fst s)
      | OwnConfig t r \<Rightarrow>
          (case ToNumber (conv e) (get_prop d ''value'') of
             None \<Rightarrow> Inl (fst s)
           | Some n \<Rightarrow>
               if js_lt n (Fin (of_int (min_rule r))) \<or> js_lt (Fin (of_int (max_rule r))) n then
                 (case ToString (conv e) (get_prop d ''value'') of
                    None \<Rightarrow> Inl (fst s)
                  | Some vs \<Rightarrow>
                      Inr (deduct True [ValueOutOfRange vs (min_rule r) (max_rule r) (unit_rule r)] 40 s))
               else Inr s))"

definition check_unit :: "env \<Rightarrow> deviceConfig \<Rightarrow> jsval \<Rightarrow> scoring \<Rightarrow> verror list + scoring" where
  "check_unit e cfg d s =
     (case cfg of
        Inherited k \<Rightarrow> Inl (fst s)
      | OwnConfig t r \<Rightarrow>
          if get_prop d ''unitName'' \<noteq> JStr (unit_rule r) then
            (case ToString (conv e) (get_prop d ''unitName'') of
               None \<Rightarrow> Inl (fst s)
             | Some us \<Rightarrow> Inr (deduct True [UnitMismatch (unit_rule r) us] 20 s))
          else Inr s)"

text \<open>
  Timestamp: more than five minutes away from the clock, in either direction. With a
  timestamp the message time is \<^verbatim>\<open>data.timestamp * 1000\<close> and the difference
  \<^verbatim>\<open>Math.abs(now - messageTime)\<close>, both in double arithmetic; without one the message
  time is the clock reading itself and the difference is 0.
\<close>

definition timeDiff :: "env \<Rightarrow> jsval \<Rightarrow> jsnum option" where
  "timeDiff e d =
     (if truthy (get_prop d ''timestamp'')
      then map_option
             (\<lambda>n. js_abs (js_minus_from (conv e) (of_int (now e)) (js_times_1000 (conv e) n)))
             (ToNumber (conv e) (get_prop d ''timestamp''))
      else Some (Fin 0))"

definition check_timestamp :: "env \<Rightarrow> jsval \<Rightarrow> scoring \<Rightarrow> verror list + scoring" where
  "check_timestamp e d s =
     (case timeDiff e d of
        None \<Rightarrow> Inl (fst s)
      | Some diff \<Rightarrow>
          Inr (deduct (js_lt (Fin (5 * 60 * 1000)) diff) [TimestampTooOldOrFuture] 10 s))"

text \<open>Data completeness: the score alone changes.\<close>

definition completeness :: "jsval \<Rightarrow> scoring \<Rightarrow> scoring" where
  "completeness d s =
     deduct (\<not> truthy (get_prop d ''metadata'')) [] 2
       (deduct (\<not> truthy (get_prop d ''bikeId'')) [] 5
          (deduct (\<not> truthy (get_prop d ''deviceId'')) [] 5 s))"

text \<open>The statements of the \<^verbatim>\<open>try\<close> block up to the completeness scoring, in order.\<close>

definition score_reading :: "env \<Rightarrow> jsval \<Rightarrow> deviceConfig \<Rightarrow> verror list + scoring" where
  "score_reading e d cfg =
     (if nullish d then Inl []
      else
        and_then (check_range e cfg d (check_unitName d (check_value d ([], 100)))) (\<lambda>s3.
        and_then (check_unit e cfg d s3) (\<lambda>s4.
        and_then (check_timestamp e d s4) (\<lambda>s5.
        Inr (completeness d s5)))))"

text \<open>The object literal \<^verbatim>\<open>enhancedData\<close>; \<open>None\<close> when one of its conversions throws.\<close>

definition enhance :: "env \<Rightarrow> jsval \<Rightarrow> int \<Rightarrow> enhancedData option" where
  "enhance e d q =
     (case ToNumber (conv e) (get_prop d ''value'') of
        None \<Rightarrow> None
      | Some n \<Rightarrow>
          (case (if truthy (get_prop d ''reportedAt'') then ToDate (conv e) (get_prop d ''reportedAt'')
                 else Some (Fin (of_int (now e)))) of
             None \<Rightarrow> None
           | Some rep \<Rightarrow>
               Some \<lparr>source = d,
                     value_num = n,
                     timestamp = js_or (get_prop d ''timestamp'') (JNum (Fin (of_int (now e div 1000)))),
                     reportedAt = rep,
                     metadata = js_or (get_prop d ''metadata'') (JObj []),
                     messageId = js_or (get_prop d ''messageId'') (JStr (genId e)),
                     version = js_or (get_prop d ''version'') (JStr ''2.0''),
                     receivedAt = now e,
                     processedAt = now e,
                     qualityScore = max 0 q,
                     anomalyDetected = (q < 70)\<rparr>))"

definition validation_caught :: "verror list \<Rightarrow> validationResult" where
  "validation_caught errs =
     \<lparr>isValid = False, data = None, qualityScore = 0, errors = errs @ [ValidationThrew]\<rparr>"

definition validateEnhancedKafkaDeviceData :: "env \<Rightarrow> jsval \<Rightarrow> deviceConfig \<Rightarrow> validationResult" where
  "validateEnhancedKafkaDeviceData e d cfg =
     (case score_reading e d cfg of
        Inl errs \<Rightarrow> validation_caught errs
      | Inr s \<Rightarrow>
          (case enhance e d (snd s) of
             None \<Rightarrow> validation_caught (fst s)
           | Some ed \<Rightarrow>
               \<lparr>isValid = (fst s = []), data = Some ed, qualityScore = max 0 (snd s),
                errors = fst s\<rparr>))"

section \<open>Persistence Writer, Dead-Letter Router and Consumer Runtime\<close>

text \<open>
  What one message makes the consumer do, in order: an attempt of the writer's loop, a
  record stored by a \<^verbatim>\<open>save()\<close> that resolved, the metrics sent after it, a back-off
  wait with its delay in milliseconds, and a call of \<^verbatim>\<open>sendToEnhancedDLQ\<close> with its
  error type and additional context. Both producers swallow their own failures, so a
  call never changes the control flow of the caller.
\<close>

datatype dlq_context =
    NoContext
  | RawMessage string
  | ValidationContext "verror list" int
  | DeviceDataContext "enhancedData option"

datatype effect =
    SaveAttempt int
  | Persisted enhancedData string "DeviceType option"
  | MetricsSent string "DeviceType option" enhancedData
  | Delay rat
  | DLQ string dlq_context

text \<open>
  One pass through the body of the retry loop: \<open>None\<close> when \<^verbatim>\<open>save()\<close> resolved, the
  error otherwise. Building the document from absent data throws before \<^verbatim>\<open>save()\<close>.
\<close>

definition try_save :: "env \<Rightarrow> enhancedData option \<Rightarrow> int \<Rightarrow> string option" where
  "try_save e d attempt = (case d of None \<Rightarrow> Some ''TypeError'' | Some x \<Rightarrow> save_error e attempt)"

definition backoff_delay :: "env \<Rightarrow> int \<Rightarrow> rat" where
  "backoff_delay e attempt = 2 ^ nat attempt * 1000 + random e attempt * 1000"

function save_loop ::
  "env \<Rightarrow> enhancedData option \<Rightarrow> string \<Rightarrow> DeviceType option \<Rightarrow> int \<Rightarrow> int \<Rightarrow> string option
     \<Rightarrow> (string option + unit) \<times> effect list" where
  "save_loop e d devId devType maxRetries attempt lastError =
     (if attempt \<le> maxRetries then
        (case try_save e d attempt of
           None \<Rightarrow>
             (Inr (), [SaveAttempt attempt] @
                (case d of None \<Rightarrow> []
                 | Some x \<Rightarrow> [Persisted x devId devType, MetricsSent devId devType x]))
         | Some err \<Rightarrow>
             (let rest = save_loop e d devId devType maxRetries (attempt + 1) (Some err) in
              (fst rest,
               [SaveAttempt attempt] @
               (if attempt < maxRetries then [Delay (backoff_delay e attempt)] else []) @
               snd rest)))
      else (Inl lastError, []))"
  by pat_completeness auto
termination
  by (relation "measure (\<lambda>(e, d, devId, devType, maxRetries, attempt, lastError).
        nat (maxRetries + 1 - attempt))") auto

definition saveEnhancedDeviceData ::
  "env \<Rightarrow> enhancedData option \<Rightarrow> string \<Rightarrow> DeviceType option \<Rightarrow> int
     \<Rightarrow> (string option + unit) \<times> effect list" where
  "saveEnhancedDeviceData e d devId devType maxRetries =
     save_loop e d devId devType maxRetries 1 None"

text \<open>The \<^verbatim>\<open>try\<close> around the save in the consumer, with the default of three attempts.\<close>

definition save_stage :: "env \<Rightarrow> enhancedData option \<Rightarrow> string \<Rightarrow> DeviceType option \<Rightarrow> effect list" where
  "save_stage e d devId devType =
     (case saveEnhancedDeviceData e d devId devType 3 of
        (Inr u, effs) \<Rightarrow> effs
      | (Inl saveError, effs) \<Rightarrow> effs @ [DLQ ''DATABASE_SAVE_ERROR'' (DeviceDataContext d)])"

text \<open>Validation, the dead-letter call on an invalid reading, and the drop threshold.\<close>

definition validation_stage :: "env \<Rightarrow> topicInfo \<Rightarrow> jsval \<Rightarrow> effect list" where
  "validation_stage e info rawData =
     (let validationResult = validateEnhancedKafkaDeviceData e rawData (deviceConfig info);
          dead =
            (if \<not> isValid validationResult
             then [DLQ ''VALIDATION_ERROR''
                     (ValidationContext (errors validationResult)
                        (validationResult.qualityScore validationResult))]
             else [])
      in if \<not> isValid validationResult \<and> validationResult.qualityScore validationResult < 50
         then dead
         else dead @ save_stage e (data validationResult) (deviceId info) (deviceType info))"

text \<open>
  \<^verbatim>\<open>eachMessage\<close> of \<^verbatim>\<open>runEnhancedConsumer\<close>, on a topic and the text of the message
  value (\<open>None\<close> for a message without value). A heartbeat that rejects is caught by the
  outer handler.
\<close>

definition eachMessage :: "env \<Rightarrow> string \<Rightarrow> string option \<Rightarrow> effect list" where
  "eachMessage e topic msg =
     (if \<not> heartbeat_ok e then [DLQ ''UNEXPECTED_ERROR'' NoContext]
      else
        (case msg of
           None \<Rightarrow> []
         | Some messageValue \<Rightarrow>
             if messageValue = [] then []
             else
               (case parseEnhancedKafkaTopic topic of
                  None \<Rightarrow> [DLQ ''INVALID_TOPIC_FORMAT'' NoContext]
                | Some info \<Rightarrow>
                    if isControlTopic info then []
                    else
                      (case JSON_parse e messageValue of
                         None \<Rightarrow> [DLQ ''JSON_PARSE_ERROR'' (RawMessage messageValue)]
                       | Some rawData \<Rightarrow> validation_stage e info rawData))))"

text \<open>What a list of effects stored, which attempts it made, how long it waited, what it dead-lettered.\<close>

fun persisted :: "effect list \<Rightarrow> enhancedData list" where
  "persisted [] = []"
| "persisted (Persisted x devId t # effs) = x # persisted effs"
| "persisted (ef # effs) = persisted effs"

fun attempts :: "effect list \<Rightarrow> int list" where
  "attempts [] = []"
| "attempts (SaveAttempt k # effs) = k # attempts effs"
| "attempts (ef # effs) = attempts effs"

fun delays :: "effect list \<Rightarrow> rat list" where
  "delays [] = []"
| "delays (Delay x # effs) = x # delays effs"
| "delays (ef # effs) = delays effs"

fun dead_letters :: "effect list \<Rightarrow> (string \<times> dlq_context) list" where
  "dead_letters [] = []"
| "dead_letters (DLQ t c # effs) = (t, c) # dead_letters effs"
| "dead_letters (ef # effs) = dead_letters effs"

definition reaches_validation :: "env \<Rightarrow> string \<Rightarrow> string option \<Rightarrow> topicInfo \<Rightarrow> jsval \<Rightarrow> bool" where
  "reaches_validation e topic msg info rawData \<longleftrightarrow>
     heartbeat_ok e \<and> parseEnhancedKafkaTopic topic = Some info \<and> \<not> isControlTopic info \<and>
     (case msg of None \<Rightarrow> False
      | Some messageValue \<Rightarrow> messageValue \<noteq> [] \<and> JSON_parse e messageValue = Some rawData)"

section \<open>Distribution Bridge\<close>

definition DEVICE_TYPES :: "string list" where
  "DEVICE_TYPES =
     [''heartrate'', ''cadence'', ''speed'', ''power'', ''resistance'', ''incline'', ''fan'']"

datatype transport = websocket | sse

text \<open>
  The object a record keeps in its \<^verbatim>\<open>connection\<close> field: the socket of socket.io, named
  by its \<^verbatim>\<open>socket.id\<close>, or the response object \<^verbatim>\<open>res\<close> of one request to
  \<^verbatim>\<open>/events\<close>, named by the number of the request.
\<close>

datatype handle = SocketHandle string | ResponseHandle int

text \<open>A connection record. \<open>subscriptions\<close> is a \<^verbatim>\<open>Set\<close>, kept in insertion order.\<close>

record ConnectionInfo =
  id_c :: string
  type_c :: transport
  connectedAt :: int
  lastActivity :: int
  subscriptions :: "string list"
  deviceId_c :: "string option"
  connection :: handle

text \<open>
  The state of the bridge: the \<^verbatim>\<open>Map\<close> \<^verbatim>\<open>activeConnections\<close> in insertion order, and the
  room memberships that socket.io keeps for \<^verbatim>\<open>socket.join\<close> and \<^verbatim>\<open>io.to(room)\<close>, as pairs
  of a socket id and a room. socket.io also puts every socket into a room named by its
  own id, a generated string of 20 characters; no room key of a subscribed topic has 20
  characters, so these private rooms are left out.
\<close>

record bridge =
  activeConnections :: "(string \<times> ConnectionInfo) list"
  rooms :: "(string \<times> string) list"

definition initial_bridge :: bridge where
  "initial_bridge = \<lparr>activeConnections = [], rooms = []\<rparr>"

definition set_add :: "'a \<Rightarrow> 'a list \<Rightarrow> 'a list" where
  "set_add x xs = (if x \<in> set xs then xs else xs @ [x])"

definition members :: "string \<Rightarrow> (string \<times> string) list \<Rightarrow> string list" where
  "members room rs = map fst (filter (\<lambda>p. snd p = room) rs)"

definition room_of :: "string \<Rightarrow> string \<Rightarrow> string" where
  "room_of devId t = ''device_'' @ devId @ ''_'' @ t"

text \<open>\<^verbatim>\<open>Date.now()\<close> printed in a template literal: the decimal digits of an integer.\<close>

definition digit :: "int \<Rightarrow> char" where
  "digit i = ''0123456789'' ! nat i"

function digits :: "int \<Rightarrow> string" where
  "digits i = (if i < 10 then [digit i] else digits (i div 10) @ [digit (i mod 10)])"
  by pat_completeness auto
termination
  by (relation "measure nat") auto

definition decimal_int :: "int \<Rightarrow> string" where
  "decimal_int i = (if i < 0 then CHR ''-'' # digits (- i) else digits i)"

definition sse_id :: "int \<Rightarrow> string" where
  "sse_id t = ''sse_'' @ decimal_int t"

text \<open>The envelope sent to the clients.\<close>

record messageData =
  topic_m :: string
  deviceId_m :: string
  deviceType_m :: string
  isReport :: bool
  data_m :: jsval
  timestamp_m :: jsval
  messageId_m :: jsval
  receivedAt_m :: string

text \<open>
  What the surroundings supply to one run of the bridge's \<^verbatim>\<open>eachMessage\<close>: whether the
  awaited \<^verbatim>\<open>heartbeat()\<close> resolves, \<^verbatim>\<open>JSON.parse\<close>, the clock in milliseconds and as an
  ISO string, the generated message id, and the connection objects whose \<^verbatim>\<open>write\<close>
  throws.
\<close>

record fanout_env =
  heartbeat_resolves :: bool
  parse :: "string \<Rightarrow> jsval option"
  clock :: int
  clockISO :: string
  freshId :: string
  write_throws :: "handle \<Rightarrow> bool"

text \<open>
  What happens to the bridge: a request to \<^verbatim>\<open>/events\<close> (its number and the clock
  reading), the close of a request whose handler computed the given key, a socket
  connecting with its id, a \<^verbatim>\<open>subscribe\<close>
  event of a socket (device id, type list if given, clock), a socket disconnecting, a tick
  of the stale-connection timer, and a message of the broker. The control-command
  handler and the health endpoint do not touch the registry and are left out.
\<close>

datatype bridge_event =
    SseConnect int int
  | SseClose string
  | WsConnect string int
  | WsSubscribe string string "string list option" int
  | WsDisconnect string
  | Reap int
  | KafkaMessage string "string option" fanout_env

datatype outgoing =
    Subscribed string string "string list"
  | SensorData string messageData
  | SseWrite string handle messageData

definition fresh_connection :: "string \<Rightarrow> transport \<Rightarrow> handle \<Rightarrow> int \<Rightarrow> ConnectionInfo" where
  "fresh_connection k t h n =
     \<lparr>id_c = k, type_c = t, connectedAt = n, lastActivity = n, subscriptions = [],
      deviceId_c = None, connection = h\<rparr>"

text \<open>The stale-connection timer: every entry idle for more than five minutes is deleted.\<close>

definition staleThreshold :: int where
  "staleThreshold = 5 * 60 * 1000"

definition stale :: "int \<Rightarrow> ConnectionInfo \<Rightarrow> bool" where
  "stale n c \<longleftrightarrow> n - lastActivity c > staleThreshold"

definition reap :: "int \<Rightarrow> bridge \<Rightarrow> bridge" where
  "reap n s = s\<lparr>activeConnections := filter (\<lambda>p. \<not> stale n (snd p)) (activeConnections s)\<rparr>"

text \<open>
  The \<^verbatim>\<open>subscribe\<close> handler of a socket; \<^verbatim>\<open>deviceTypes\<close> defaults to \<^verbatim>\<open>DEVICE_TYPES\<close>
  when the event omits it.
\<close>

definition default_types :: "string list option \<Rightarrow> string list" where
  "default_types types = (case types of None \<Rightarrow> DEVICE_TYPES | Some ts \<Rightarrow> ts)"

definition subscribe ::
  "string \<Rightarrow> string \<Rightarrow> string list option \<Rightarrow> int \<Rightarrow> bridge \<Rightarrow> bridge \<times> outgoing list" where
  "subscribe sid devId types n s =
     (case map_of (activeConnections s) sid of
        None \<Rightarrow> (s, [])
      | Some connectionInfo \<Rightarrow>
          (let deviceTypes = default_types types;
               joined = map (room_of devId) deviceTypes
           in (s\<lparr>activeConnections :=
                    AList.update sid
                      (connectionInfo\<lparr>deviceId_c := Some devId, lastActivity := n,
                         subscriptions := fold set_add joined (subscriptions connectionInfo)\<rparr>)
                      (activeConnections s),
                  rooms := fold (\<lambda>r. set_add (sid, r)) joined (rooms s)\<rparr>,
               [Subscribed sid devId deviceTypes])))"

text \<open>
  The bridge's \<^verbatim>\<open>eachMessage\<close>: the envelope, then the three passes over the registry.
  The whole body is inside one \<^verbatim>\<open>try\<close>, whose first statement awaits the heartbeat: a
  heartbeat that rejects, a payload that does not parse and a payload \<^verbatim>\<open>null\<close> all end
  in the \<^verbatim>\<open>catch\<close>, which logs and forwards nothing.
\<close>

definition envelope :: "fanout_env \<Rightarrow> string \<Rightarrow> jsval \<Rightarrow> messageData" where
  "envelope fe topic d =
     (let topicParts = split_dot topic in
      \<lparr>topic_m = topic,
       deviceId_m = topicParts ! 1,
       deviceType_m = topicParts ! 2,
       isReport = (length topicParts > 3 \<and> topicParts ! 3 = ''report''),
       data_m = d,
       timestamp_m = js_or (get_prop d ''timestamp'') (JStr (clockISO fe)),
       messageId_m = js_or (get_prop d ''messageId'') (JStr (freshId fe)),
       receivedAt_m = clockISO fe\<rparr>)"

definition touch_subscribers :: "string \<Rightarrow> int \<Rightarrow> (string \<times> ConnectionInfo) list \<Rightarrow> (string \<times> ConnectionInfo) list" where
  "touch_subscribers room n conns =
     map (\<lambda>p. if type_c (snd p) = websocket \<and> room \<in> set (subscriptions (snd p))
               then (fst p, (snd p)\<lparr>lastActivity := n\<rparr>) else p) conns"

definition is_sse_key :: "string \<Rightarrow> bool" where
  "is_sse_key k \<longleftrightarrow> take 4 k = ''sse_''"

text \<open>
  The pass over the event streams: the connection object of every record whose key
  starts with \<^verbatim>\<open>sse_\<close> is written to and the record's activity refreshed; a
  \<^verbatim>\<open>write\<close> that throws delivers nothing and deletes the record.
\<close>

fun sse_pass ::
  "fanout_env \<Rightarrow> messageData \<Rightarrow> (string \<times> ConnectionInfo) list
     \<Rightarrow> (string \<times> ConnectionInfo) list \<times> outgoing list" where
  "sse_pass fe md [] = ([], [])"
| "sse_pass fe md (p # ps) =
     (let rest = sse_pass fe md ps in
      if is_sse_key (fst p) then
        (if write_throws fe (connection (snd p)) then rest
         else ((fst p, (snd p)\<lparr>lastActivity := clock fe\<rparr>) # fst rest,
               SseWrite (fst p) (connection (snd p)) md # snd rest))
      else (p # fst rest, snd rest))"

definition fan_out :: "fanout_env \<Rightarrow> string \<Rightarrow> jsval \<Rightarrow> bridge \<Rightarrow> bridge \<times> outgoing list" where
  "fan_out fe topic d s =
     (let topicParts = split_dot topic;
          md = envelope fe topic d;
          room = room_of (topicParts ! 1) (topicParts ! 2);
          emitted = map (\<lambda>sid. SensorData sid md) (members room (rooms s));
          written = sse_pass fe md (touch_subscribers room (clock fe) (activeConnections s))
      in (s\<lparr>activeConnections := fst written\<rparr>, emitted @ snd written))"

definition on_kafka_message ::
  "string \<Rightarrow> string option \<Rightarrow> fanout_env \<Rightarrow> bridge \<Rightarrow> bridge \<times> outgoing list" where
  "on_kafka_message topic msg fe s =
     (if \<not> heartbeat_resolves fe then (s, [])
      else
        (case msg of
           None \<Rightarrow> (s, [])
         | Some messageValue \<Rightarrow>
             if messageValue = [] then (s, [])
             else
               (case parse fe messageValue of
                  None \<Rightarrow> (s, [])
                | Some d \<Rightarrow>
                    if length (split_dot topic) \<ge> 3 then
                      (if nullish d then (s, []) else fan_out fe topic d s)
                    else (s, []))))"

text \<open>One event of the bridge, and a sequence of events from a given state.\<close>

fun step :: "bridge \<Rightarrow> bridge_event \<Rightarrow> bridge \<times> outgoing list" where
  "step s (SseConnect r n) =
     (s\<lparr>activeConnections :=
          AList.update (sse_id n) (fresh_connection (sse_id n) sse (ResponseHandle r) n)
            (activeConnections s)\<rparr>, [])"
| "step s (SseClose k) = (s\<lparr>activeConnections := AList.delete k (activeConnections s)\<rparr>, [])"
| "step s (WsConnect sid n) =
     (s\<lparr>activeConnections :=
          AList.update sid (fresh_connection sid websocket (SocketHandle sid) n)
            (activeConnections s)\<rparr>, [])"
| "step s (WsSubscribe sid devId types n) = subscribe sid devId types n s"
| "step s (WsDisconnect sid) =
     (s\<lparr>activeConnections := AList.delete sid (activeConnections s),
        rooms := filter (\<lambda>p. fst p \<noteq> sid) (rooms s)\<rparr>, [])"
| "step s (Reap n) = (reap n s, [])"
| "step s (KafkaMessage topic msg fe) = on_kafka_message topic msg fe s"

fun run :: "bridge \<Rightarrow> bridge_event list \<Rightarrow> bridge \<times> outgoing list" where
  "run s [] = (s, [])"
| "run s (ev # evs) =
     (let r = step s ev; r' = run (fst r) evs in (fst r', snd r @ snd r'))"

text \<open>The topics the bridge subscribes to.\<close>

definition bridge_topics :: "string list" where
  "bridge_topics =
     concat (map (\<lambda>devId. concat (map (\<lambda>t.
        [''bike.'' @ devId @ ''.'' @ t, ''bike.'' @ devId @ ''.'' @ t @ ''.report''])
        DEVICE_TYPES)) [''000001'', ''*''])"

text \<open>
  Who received what: the sockets a list of outputs emitted to, the registry keys of the
  records it wrote through, and the connection objects it wrote to.
\<close>

fun ws_recipients :: "outgoing list \<Rightarrow> string list" where
  "ws_recipients [] = []"
| "ws_recipients (SensorData sid md # out) = sid # ws_recipients out"
| "ws_recipients (x # out) = ws_recipients out"

fun sse_recipients :: "outgoing list \<Rightarrow> string list" where
  "sse_recipients [] = []"
| "sse_recipients (SseWrite k h md # out) = k # sse_recipients out"
| "sse_recipients (x # out) = sse_recipients out"

fun written_to :: "outgoing list \<Rightarrow> handle list" where
  "written_to [] = []"
| "written_to (SseWrite k h md # out) = h # written_to out"
| "written_to (x # out) = written_to out"

text \<open>
  The history of a socket: whether, among the events so far, it has sent a
  \<^verbatim>\<open>subscribe\<close> for the device and a list of types that contains the given type.
\<close>

fun has_subscribed :: "bridge_event list \<Rightarrow> string \<Rightarrow> string \<Rightarrow> string \<Rightarrow> bool" where
  "has_subscribed [] sid devId t = False"
| "has_subscribed (WsSubscribe s d types n # evs) sid devId t =
     ((s = sid \<and> d = devId \<and> t \<in> set (default_types types)) \<or> has_subscribed evs sid devId t)"
| "has_subscribed (ev # evs) sid devId t = has_subscribed evs sid devId t"

text \<open>The events that put a record under the key \<open>k\<close> into the registry.\<close>

fun registers :: "string \<Rightarrow> bridge_event \<Rightarrow> bool" where
  "registers k (SseConnect r n) = (sse_id n = k)"
| "registers k (WsConnect sid n) = (sid = k)"
| "registers k ev = False"

text \<open>
  What holds of the bridge after any sequence of events: the keys of the registry are
  distinct, every subscription recorded for a key is a room membership of that key, and
  a record of an event stream sits under a key that starts with \<^verbatim>\<open>sse_\<close>.
\<close>

definition bridge_inv :: "bridge \<Rightarrow> bool" where
  "bridge_inv s \<longleftrightarrow>
     distinct (map fst (activeConnections s)) \<and>
     (\<forall>p \<in> set (activeConnections s).
        (\<forall>r \<in> set (subscriptions (snd p)). (fst p, r) \<in> set (rooms s)) \<and>
        (type_c (snd p) = sse \<longrightarrow> is_sse_key (fst p)))"

section \<open>Example inputs\<close>

text \<open>
  An environment for the examples below: rounding that leaves a value as it is (the
  examples use doubles only), numbers printed as the examples need them,
  arrays and objects printed without a TypeError, a clock, and \<^verbatim>\<open>JSON.parse\<close> on the
  payloads used.
\<close>

definition example_conv :: coercions where
  "example_conv =
     \<lparr>RoundDouble = Fin,
      StringToNumber = (\<lambda>s. NaN),
      NumberToString = (\<lambda>n. if n = Fin 250 then ''250'' else ''75''),
      ObjectToPrimitive = (\<lambda>v. Some ''[object Object]''),
      ParseDate = (\<lambda>s. NaN),
      TimeClip = (\<lambda>n. n)\<rparr>"

definition payload_B :: jsval where
  "payload_B = JObj [(''value'', JNum (Fin 250)), (''unitName'', JStr ''bpm'')]"

definition payload_B_complete :: jsval where
  "payload_B_complete =
     JObj [(''value'', JNum (Fin 250)), (''unitName'', JStr ''bpm''),
           (''deviceId'', JStr ''000001''), (''bikeId'', JStr ''bike-1''),
           (''metadata'', JObj [(''firmware'', JStr ''1.0'')])]"

definition payload_A_no_metadata :: "(string \<times> jsval) list" where
  "payload_A_no_metadata =
     [(''value'', JNum (Fin 75)), (''unitName'', JStr ''bpm''),
      (''deviceId'', JStr ''000001''), (''bikeId'', JStr ''bike-1'')]"

text \<open>A payload that has the two ids and nothing else: neither value nor unit nor metadata.\<close>

definition payload_ids_only :: "(string \<times> jsval) list" where
  "payload_ids_only = [(''deviceId'', JStr ''000001''), (''bikeId'', JStr ''bike-1'')]"

definition payload_B_with :: "jsval \<Rightarrow> jsval \<Rightarrow> jsval \<Rightarrow> jsval" where
  "payload_B_with dv bv mv =
     JObj [(''value'', JNum (Fin 250)), (''unitName'', JStr ''bpm''),
           (''deviceId'', dv), (''bikeId'', bv), (''metadata'', mv)]"

definition message_B :: string where
  \<open>message_B = ''{"value":250,"unitName":"bpm"}''\<close>

definition message_B_complete :: string where
  \<open>message_B_complete =
     ''{"value":250,"unitName":"bpm","deviceId":"000001","bikeId":"bike-1","metadata":{"firmware":"1.0"}}''\<close>

definition message_A_no_metadata :: string where
  \<open>message_A_no_metadata =
     ''{"value":75,"unitName":"bpm","deviceId":"000001","bikeId":"bike-1"}''\<close>

definition example_parse :: "string \<Rightarrow> jsval option" where
  "example_parse s =
     (if s = message_B then Some payload_B
      else if s = message_B_complete then Some payload_B_complete
      else if s = message_A_no_metadata then Some (JObj payload_A_no_metadata)
      else if s = ''null'' then Some JNull
      else None)"

definition example_env :: env where
  "example_env =
     \<lparr>conv = example_conv, now = 1700000000000, genId = ''msg_1700000000000_k3j9x2m1q'',
      JSON_parse = example_parse, heartbeat_ok = True, save_error = (\<lambda>k. None),
      random = (\<lambda>k. 1 / 2)\<rparr>"

definition failing_store_env :: env where
  "failing_store_env = example_env\<lparr>save_error := (\<lambda>k. Some ''MongoNetworkError'')\<rparr>"

text \<open>What the validator makes of the complete payload of scenario B in \<open>example_env\<close>.\<close>

definition reading_B_complete :: enhancedData where
  "reading_B_complete =
     \<lparr>source = payload_B_complete, value_num = Fin 250,
      timestamp = JNum (Fin 1700000000), reportedAt = Fin 1700000000000,
      metadata = JObj [(''firmware'', JStr ''1.0'')],
      messageId = JStr ''msg_1700000000000_k3j9x2m1q'', version = JStr ''2.0'',
      receivedAt = 1700000000000, processedAt = 1700000000000,
      qualityScore = 60, anomalyDetected = True\<rparr>"

text \<open>What the validator makes of the reading of scenario A without metadata.\<close>

definition reading_A_no_metadata :: enhancedData where
  "reading_A_no_metadata =
     \<lparr>source = JObj payload_A_no_metadata, value_num = Fin 75,
      timestamp = JNum (Fin 1700000000), reportedAt = Fin 1700000000000,
      metadata = JObj [],
      messageId = JStr ''msg_1700000000000_k3j9x2m1q'', version = JStr ''2.0'',
      receivedAt = 1700000000000, processedAt = 1700000000000,
      qualityScore = 98, anomalyDetected = False\<rparr>"

definition heartrate_info :: topicInfo where
  "heartrate_info =
     \<lparr>deviceId = ''000001'', deviceType = Some DeviceType_heartRate,
      deviceConfig =
        OwnConfig DeviceType_heartRate \<lparr>min_rule = 30, max_rule = 220, unit_rule = ''bpm''\<rparr>,
      isControlTopic = False\<rparr>"

definition example_fanout_env :: fanout_env where
  "example_fanout_env =
     \<lparr>heartbeat_resolves = True, parse = example_parse, clock = 1700000400000,
      clockISO = ''2023-11-14T22:20:00.000Z'', freshId = ''msg_1700000400000_a8f3k2p0z'',
      write_throws = (\<lambda>h. False)\<rparr>"

text \<open>
  Bridge states for the examples: a socket that connected and subscribed to device
  000001 without a type list, the same bridge after a sweep of the timer six minutes
  later, and a bridge whose socket connected, never subscribed and was swept.
\<close>

definition subscribed_bridge :: bridge where
  "subscribed_bridge =
     fst (run initial_bridge
       [WsConnect ''ws1'' 1700000000000, WsSubscribe ''ws1'' ''000001'' None 1700000000000])"

definition reaped_bridge :: bridge where
  "reaped_bridge = fst (step subscribed_bridge (Reap 1700000360000))"

definition idle_reaped_bridge :: bridge where
  "idle_reaped_bridge =
     fst (run initial_bridge [WsConnect ''ws1'' 1700000000000, Reap 1700000360000])"

definition example_events :: "bridge_event list" where
  "example_events =
     [WsConnect ''ws1'' 1700000000000, WsSubscribe ''ws1'' ''000001'' None 1700000000000,
      WsConnect ''ws2'' 1700000100000, SseConnect 1 1700000200000]"

text \<open>
  Two requests to \<^verbatim>\<open>/events\<close> handled within the same millisecond, neither of them
  closed.
\<close>

definition colliding_streams :: "bridge_event list" where
  "colliding_streams = [SseConnect 1 1700000200000, SseConnect 2 1700000200000]"

section \<open>Topic Router: properties\<close>

lemma split_dot_nonempty: "split_dot s \<noteq> []"
  by (induction s) (auto split: list.splits)



text \<open>
  The topic of scenario A is recognised, with the device id, the sensor type and the
  control flag the specification gives.
\<close>

lemma parse_heartrate_topic:
  "parseEnhancedKafkaTopic ''bike.000001.heartrate'' = Some heartrate_info"
  by (simp add: parseEnhancedKafkaTopic_def lookup_device_config_def ENHANCED_DEVICE_TYPE_MAP_def
      config_type_def heartrate_info_def)

lemma parse_unknown_topic: "parseEnhancedKafkaTopic ''bike.000001.unknown'' = None"
  by (simp add: parseEnhancedKafkaTopic_def lookup_device_config_def ENHANCED_DEVICE_TYPE_MAP_def
      Object_prototype_keys_def)






section \<open>Validator: properties\<close>

lemma validation_caught_simps [simp]:
  "data (validation_caught errs) = None"
  "validationResult.qualityScore (validation_caught errs) = 0"
  "\<not> isValid (validation_caught errs)"
  "errors (validation_caught errs) = errs @ [ValidationThrew]"
  by (simp_all add: validation_caught_def)

text \<open>The validator either lands in its \<^verbatim>\<open>catch\<close> branch or returns the scored reading.\<close>

lemma validate_cases:
  obtains (caught) errs where "validateEnhancedKafkaDeviceData e d cfg = validation_caught errs"
  | (returned) s ed where "score_reading e d cfg = Inr s" "enhance e d (snd s) = Some ed"
      "validateEnhancedKafkaDeviceData e d cfg =
         \<lparr>isValid = (fst s = []), data = Some ed, qualityScore = max 0 (snd s), errors = fst s\<rparr>"
  unfolding validateEnhancedKafkaDeviceData_def
  by (cases "score_reading e d cfg"; cases "enhance e d (snd (projr (score_reading e d cfg)))") auto

lemma enhance_fields:
  "enhance e d q = Some ed \<Longrightarrow>
     enhancedData.qualityScore ed = max 0 q \<and> anomalyDetected ed = (q < 70)"
  by (auto simp: enhance_def split: option.splits if_splits)

lemma deduct_no_error:
  "es \<noteq> [] \<Longrightarrow> fst (deduct c es k s) = [] \<Longrightarrow> deduct c es k s = s"
  by (auto simp: deduct_def)

lemma deduct_silent [simp]: "fst (deduct c [] k s) = fst s"
  by (simp add: deduct_def)

lemma check_value_no_error: "fst (check_value d s) = [] \<Longrightarrow> check_value d s = s"
  unfolding check_value_def by (rule deduct_no_error) simp_all

lemma check_unitName_no_error: "fst (check_unitName d s) = [] \<Longrightarrow> check_unitName d s = s"
  unfolding check_unitName_def by (rule deduct_no_error) simp_all

lemma check_range_no_error: "check_range e cfg d s = Inr s' \<Longrightarrow> fst s' = [] \<Longrightarrow> s' = s"
  by (auto simp: check_range_def deduct_def split: deviceConfig.splits option.splits if_splits)

lemma check_unit_no_error: "check_unit e cfg d s = Inr s' \<Longrightarrow> fst s' = [] \<Longrightarrow> s' = s"
  by (auto simp: check_unit_def deduct_def split: deviceConfig.splits option.splits if_splits)

lemma check_timestamp_no_error: "check_timestamp e d s = Inr s' \<Longrightarrow> fst s' = [] \<Longrightarrow> s' = s"
  by (auto simp: check_timestamp_def deduct_def split: option.splits if_splits)

lemma completeness_errors [simp]: "fst (completeness d s) = fst s"
  by (simp add: completeness_def)

lemma completeness_score:
  "snd s - 12 \<le> snd (completeness d s) \<and> snd (completeness d s) \<le> snd s"
  by (simp add: completeness_def deduct_def)

lemma score_reading_stages:
  assumes "score_reading e d cfg = Inr s"
  obtains s3 s4 s5 where "\<not> nullish d"
    "check_range e cfg d (check_unitName d (check_value d ([], 100))) = Inr s3"
    "check_unit e cfg d s3 = Inr s4" "check_timestamp e d s4 = Inr s5" "s = completeness d s5"
  using assms unfolding score_reading_def and_then_def
  by (auto split: if_splits sum.splits)

text \<open>A reading without errors lost at most the twelve points of the completeness scoring.\<close>

lemma score_reading_valid:
  assumes "score_reading e d cfg = Inr s" "fst s = []"
  shows "88 \<le> snd s"
proof -
  from assms(1) obtain s3 s4 s5 where st:
    "check_range e cfg d (check_unitName d (check_value d ([], 100))) = Inr s3"
    "check_unit e cfg d s3 = Inr s4" "check_timestamp e d s4 = Inr s5" "s = completeness d s5"
    by (rule score_reading_stages)
  from st(4) assms(2) have e5: "fst s5 = []" by simp
  with st(3) have "s5 = s4" by (rule check_timestamp_no_error)
  with e5 st(2) have "s4 = s3" and e3: "fst s3 = []" by (auto dest: check_unit_no_error)
  with st(1) have "s3 = check_unitName d (check_value d ([], 100))"
    by (auto dest: check_range_no_error)
  with e3 have "s3 = check_value d ([], 100)" by (auto dest: check_unitName_no_error)
  with e3 have "s3 = ([], 100)" by (auto dest: check_value_no_error)
  with \<open>s5 = s4\<close> \<open>s4 = s3\<close> st(4) completeness_score [of s5 d] show ?thesis by simp
qed

lemma valid_score_at_least_88:
  "isValid (validateEnhancedKafkaDeviceData e d cfg) \<Longrightarrow>
     88 \<le> validationResult.qualityScore (validateEnhancedKafkaDeviceData e d cfg)"
  by (cases e d cfg rule: validate_cases) (auto dest: score_reading_valid)

section \<open>Persistence Writer and Consumer Runtime: properties\<close>

lemma persisted_append [simp]: "persisted (xs @ ys) = persisted xs @ persisted ys"
  by (induction xs rule: persisted.induct) simp_all

lemma attempts_append [simp]: "attempts (xs @ ys) = attempts xs @ attempts ys"
  by (induction xs rule: attempts.induct) simp_all

lemma delays_append [simp]: "delays (xs @ ys) = delays xs @ delays ys"
  by (induction xs rule: delays.induct) simp_all

lemma dead_letters_append [simp]: "dead_letters (xs @ ys) = dead_letters xs @ dead_letters ys"
  by (induction xs rule: dead_letters.induct) simp_all

declare save_loop.simps [simp del]

lemma save_loop_done:
  "\<not> attempt \<le> m \<Longrightarrow> save_loop e d devId t m attempt le = (Inl le, [])"
  by (subst save_loop.simps) simp

lemma save_loop_stored:
  "attempt \<le> m \<Longrightarrow> try_save e d attempt = None \<Longrightarrow>
     save_loop e d devId t m attempt le =
       (Inr (), SaveAttempt attempt #
          (case d of None \<Rightarrow> [] | Some x \<Rightarrow> [Persisted x devId t, MetricsSent devId t x]))"
  by (subst save_loop.simps) simp

lemma save_loop_retry:
  "attempt \<le> m \<Longrightarrow> try_save e d attempt = Some err \<Longrightarrow>
     save_loop e d devId t m attempt le =
       (fst (save_loop e d devId t m (attempt + 1) (Some err)),
        SaveAttempt attempt #
        (if attempt < m then [Delay (backoff_delay e attempt)] else []) @
        snd (save_loop e d devId t m (attempt + 1) (Some err)))"
  by (subst save_loop.simps) (simp add: Let_def)

text \<open>
  The writer never dead-letters by itself, and it stores the reading exactly when it
  returns normally.
\<close>

lemma save_loop_outcome:
  "dead_letters (snd (save_loop e d devId t m k le)) = [] \<and>
   (case fst (save_loop e d devId t m k le) of
      Inr u \<Rightarrow> \<exists>x. d = Some x \<and> persisted (snd (save_loop e d devId t m k le)) = [x]
    | Inl err \<Rightarrow> persisted (snd (save_loop e d devId t m k le)) = [])"
proof (induction e d devId t m k le rule: save_loop.induct)
  case (1 e d devId devType maxRetries attempt lastError)
  show ?case
  proof (cases "attempt \<le> maxRetries")
    case False
    then show ?thesis by (simp add: save_loop_done)
  next
    case True
    show ?thesis
    proof (cases "try_save e d attempt")
      case None
      with True show ?thesis
        by (auto simp: save_loop_stored try_save_def split: option.splits)
    next
      case (Some err)
      note eq = save_loop_retry [OF True Some, of devId devType lastError]
      from "1.IH" [OF True Some] show ?thesis
        unfolding eq by (simp split: sum.splits)
    qed
  qed
qed


lemma eachMessage_validated:
  "reaches_validation e topic msg info rawData \<Longrightarrow>
     eachMessage e topic msg = validation_stage e info rawData"
  by (auto simp: reaches_validation_def eachMessage_def split: option.splits)

lemma save_stage_outcome:
  "(\<exists>x. d = Some x \<and> persisted (save_stage e d devId t) = [x] \<and>
        dead_letters (save_stage e d devId t) = []) \<or>
   (persisted (save_stage e d devId t) = [] \<and>
    dead_letters (save_stage e d devId t) = [(''DATABASE_SAVE_ERROR'', DeviceDataContext d)])"
  using save_loop_outcome [of e d devId t 3 1 None]
  by (auto simp: save_stage_def saveEnhancedDeviceData_def split: prod.splits sum.splits)

lemma save_stage_first_attempt_stores:
  "save_error e 1 = None \<Longrightarrow>
     save_stage e (Some x) devId t = [SaveAttempt 1, Persisted x devId t, MetricsSent devId t x]"
  by (simp add: save_stage_def saveEnhancedDeviceData_def save_loop_stored try_save_def)

lemma validation_stage_dropped:
  assumes "\<not> isValid (validateEnhancedKafkaDeviceData e rawData (deviceConfig info))"
    and "validationResult.qualityScore (validateEnhancedKafkaDeviceData e rawData (deviceConfig info)) < 50"
  shows "validation_stage e info rawData =
     [DLQ ''VALIDATION_ERROR''
        (ValidationContext (errors (validateEnhancedKafkaDeviceData e rawData (deviceConfig info)))
           (validationResult.qualityScore (validateEnhancedKafkaDeviceData e rawData (deviceConfig info))))]"
  using assms by (simp add: validation_stage_def Let_def)

lemma validation_stage_flagged:
  assumes "\<not> isValid (validateEnhancedKafkaDeviceData e rawData (deviceConfig info))"
    and "50 \<le> validationResult.qualityScore (validateEnhancedKafkaDeviceData e rawData (deviceConfig info))"
  shows "validation_stage e info rawData =
     DLQ ''VALIDATION_ERROR''
        (ValidationContext (errors (validateEnhancedKafkaDeviceData e rawData (deviceConfig info)))
           (validationResult.qualityScore (validateEnhancedKafkaDeviceData e rawData (deviceConfig info))))
     # save_stage e (data (validateEnhancedKafkaDeviceData e rawData (deviceConfig info)))
         (topicInfo.deviceId info) (deviceType info)"
  using assms by (simp add: validation_stage_def Let_def)

lemma validation_stage_valid:
  assumes "isValid (validateEnhancedKafkaDeviceData e rawData (deviceConfig info))"
  shows "validation_stage e info rawData =
     save_stage e (data (validateEnhancedKafkaDeviceData e rawData (deviceConfig info)))
       (topicInfo.deviceId info) (deviceType info)"
  using assms by (simp add: validation_stage_def Let_def)

text \<open>
  Claim C10. When the validator returns without \<^verbatim>\<open>data\<close> it came through its
  \<^verbatim>\<open>catch\<close> branch: the score is 0 and the reading is invalid, so the consumer
  dead-letters it and returns at the drop threshold. It makes no save attempt, that is,
  it never reaches \<^verbatim>\<open>validationResult.data!\<close> with an absent value.
\<close>

theorem absent_data_never_dereferenced:
  assumes "data (validateEnhancedKafkaDeviceData e rawData (deviceConfig info)) = None"
  shows "validationResult.qualityScore (validateEnhancedKafkaDeviceData e rawData (deviceConfig info)) = 0
    \<and> \<not> isValid (validateEnhancedKafkaDeviceData e rawData (deviceConfig info))
    \<and> validation_stage e info rawData =
        [DLQ ''VALIDATION_ERROR''
           (ValidationContext
              (errors (validateEnhancedKafkaDeviceData e rawData (deviceConfig info))) 0)]
    \<and> attempts (validation_stage e info rawData) = []"
proof (cases e rawData "deviceConfig info" rule: validate_cases)
  case (caught errs)
  then show ?thesis by (simp add: validation_stage_def Let_def)
next
  case (returned s ed)
  with assms show ?thesis by simp
qed

theorem absent_data_never_dereferenced_witness:
  "data (validateEnhancedKafkaDeviceData example_env JNull (deviceConfig heartrate_info)) = None
   \<and> validation_stage example_env heartrate_info JNull =
       [DLQ ''VALIDATION_ERROR'' (ValidationContext [ValidationThrew] 0)]
   \<and> attempts (validation_stage example_env heartrate_info JNull) = []"
proof -
  have h: "data (validateEnhancedKafkaDeviceData example_env JNull (deviceConfig heartrate_info)) = None"
    by (simp add: validateEnhancedKafkaDeviceData_def score_reading_def)
  have "errors (validateEnhancedKafkaDeviceData example_env JNull (deviceConfig heartrate_info))
          = [ValidationThrew]"
    by (simp add: validateEnhancedKafkaDeviceData_def score_reading_def)
  with absent_data_never_dereferenced [OF h] h show ?thesis by simp
qed

text \<open>
  Claim C6. On every reading the validator returns, \<^verbatim>\<open>anomalyDetected\<close> is true exactly
  when the quality score is below 70, whatever the drop threshold 50 decides. A reading
  with a score from 50 up to 69 is flagged anomalous and still handed to the writer,
  after the dead-letter call its validation errors cause; when the first save
  succeeds it is the record stored.
\<close>

theorem anomaly_iff_score_below_70:
  assumes "data (validateEnhancedKafkaDeviceData e rawData (deviceConfig info)) = Some d"
  shows "(anomalyDetected d \<longleftrightarrow>
            validationResult.qualityScore (validateEnhancedKafkaDeviceData e rawData (deviceConfig info)) < 70)
    \<and> enhancedData.qualityScore d =
        validationResult.qualityScore (validateEnhancedKafkaDeviceData e rawData (deviceConfig info))
    \<and> (50 \<le> validationResult.qualityScore (validateEnhancedKafkaDeviceData e rawData (deviceConfig info))
         \<and> validationResult.qualityScore (validateEnhancedKafkaDeviceData e rawData (deviceConfig info)) < 70
       \<longrightarrow> anomalyDetected d
         \<and> validation_stage e info rawData =
             DLQ ''VALIDATION_ERROR''
               (ValidationContext
                  (errors (validateEnhancedKafkaDeviceData e rawData (deviceConfig info)))
                  (validationResult.qualityScore (validateEnhancedKafkaDeviceData e rawData (deviceConfig info))))
             # save_stage e (Some d) (topicInfo.deviceId info) (deviceType info)
         \<and> (save_error e 1 = None \<longrightarrow> persisted (validation_stage e info rawData) = [d]))"
proof (cases e rawData "deviceConfig info" rule: validate_cases)
  case (caught errs)
  with assms show ?thesis by simp
next
  case (returned s ed)
  let ?vr = "validateEnhancedKafkaDeviceData e rawData (deviceConfig info)"
  from returned(3) assms have d: "d = ed" by simp
  from enhance_fields [OF returned(2)] d
  have f: "enhancedData.qualityScore d = max 0 (snd s)" "anomalyDetected d = (snd s < 70)"
    by simp_all
  from returned(3) have q: "validationResult.qualityScore ?vr = max 0 (snd s)" by simp
  have first: "anomalyDetected d \<longleftrightarrow> validationResult.qualityScore ?vr < 70"
    using f(2) q by auto
  have second: "enhancedData.qualityScore d = validationResult.qualityScore ?vr"
    using f(1) q by simp
  have third: "anomalyDetected d
      \<and> validation_stage e info rawData =
          DLQ ''VALIDATION_ERROR'' (ValidationContext (errors ?vr) (validationResult.qualityScore ?vr))
          # save_stage e (Some d) (topicInfo.deviceId info) (deviceType info)
      \<and> (save_error e 1 = None \<longrightarrow> persisted (validation_stage e info rawData) = [d])"
    if range: "50 \<le> validationResult.qualityScore ?vr" "validationResult.qualityScore ?vr < 70"
  proof -
    from range(2) valid_score_at_least_88 [of e rawData "deviceConfig info"]
    have inv: "\<not> isValid ?vr" by auto
    from validation_stage_flagged [OF inv range(1)] assms
    have st: "validation_stage e info rawData =
        DLQ ''VALIDATION_ERROR'' (ValidationContext (errors ?vr) (validationResult.qualityScore ?vr))
        # save_stage e (Some d) (topicInfo.deviceId info) (deviceType info)"
      by simp
    from st save_stage_first_attempt_stores [of e d "topicInfo.deviceId info" "deviceType info"]
    have "save_error e 1 = None \<longrightarrow> persisted (validation_stage e info rawData) = [d]"
      by simp
    with first range(2) st show ?thesis by blast
  qed
  from first second third show ?thesis by blast
qed

section \<open>The scenarios of the specification\<close>

lemmas validator_defs =
  validateEnhancedKafkaDeviceData_def score_reading_def and_then_def check_value_def
  check_unitName_def check_range_def check_unit_def check_timestamp_def timeDiff_def
  completeness_def deduct_def enhance_def js_or_def

lemma validate_B_complete:
  "validateEnhancedKafkaDeviceData example_env payload_B_complete (deviceConfig heartrate_info) =
     \<lparr>isValid = False, data = Some reading_B_complete, qualityScore = 60,
      errors = [ValueOutOfRange ''250'' 30 220 ''bpm'']\<rparr>"
  by (simp add: validator_defs example_env_def example_conv_def payload_B_complete_def
      heartrate_info_def reading_B_complete_def)

theorem anomaly_iff_score_below_70_witness:
  "data (validateEnhancedKafkaDeviceData example_env payload_B_complete (deviceConfig heartrate_info))
     = Some reading_B_complete
   \<and> validationResult.qualityScore
        (validateEnhancedKafkaDeviceData example_env payload_B_complete (deviceConfig heartrate_info)) = 60
   \<and> anomalyDetected reading_B_complete
   \<and> persisted (validation_stage example_env heartrate_info payload_B_complete) = [reading_B_complete]"
proof -
  have h: "data (validateEnhancedKafkaDeviceData example_env payload_B_complete
              (deviceConfig heartrate_info)) = Some reading_B_complete"
    by (simp add: validate_B_complete)
  have s: "save_error example_env 1 = None" by (simp add: example_env_def)
  have q: "validationResult.qualityScore
      (validateEnhancedKafkaDeviceData example_env payload_B_complete (deviceConfig heartrate_info)) = 60"
    by (simp add: validate_B_complete)
  then have r: "50 \<le> validationResult.qualityScore
        (validateEnhancedKafkaDeviceData example_env payload_B_complete (deviceConfig heartrate_info))
      \<and> validationResult.qualityScore
        (validateEnhancedKafkaDeviceData example_env payload_B_complete (deviceConfig heartrate_info)) < 70"
    by simp
  from anomaly_iff_score_below_70 [OF h] r s
  have "anomalyDetected reading_B_complete
      \<and> persisted (validation_stage example_env heartrate_info payload_B_complete)
           = [reading_B_complete]"
    by blast
  with s h q show ?thesis by blast
qed

subsection \<open>Completeness scoring\<close>

lemma stages_ignore_other_fields:
  assumes "k \<noteq> ''value''" "k \<noteq> ''unitName''" "k \<noteq> ''timestamp''"
  shows "check_value (JObj ((k, v) # kvs)) s = check_value (JObj kvs) s"
    and "check_unitName (JObj ((k, v) # kvs)) s = check_unitName (JObj kvs) s"
    and "check_range e cfg (JObj ((k, v) # kvs)) s = check_range e cfg (JObj kvs) s"
    and "check_unit e cfg (JObj ((k, v) # kvs)) s = check_unit e cfg (JObj kvs) s"
    and "check_timestamp e (JObj ((k, v) # kvs)) s = check_timestamp e (JObj kvs) s"
proof -
  have other: "get_prop (JObj ((k, v) # kvs)) k' = get_prop (JObj kvs) k'" if "k' \<noteq> k" for k'
    using that by simp
  note eqs = other [OF assms(1) [symmetric]] other [OF assms(2) [symmetric]]
    other [OF assms(3) [symmetric]]
  show "check_value (JObj ((k, v) # kvs)) s = check_value (JObj kvs) s"
    unfolding check_value_def eqs ..
  show "check_unitName (JObj ((k, v) # kvs)) s = check_unitName (JObj kvs) s"
    unfolding check_unitName_def eqs ..
  show "check_range e cfg (JObj ((k, v) # kvs)) s = check_range e cfg (JObj kvs) s"
    unfolding check_range_def eqs ..
  show "check_unit e cfg (JObj ((k, v) # kvs)) s = check_unit e cfg (JObj kvs) s"
    unfolding check_unit_def eqs ..
  show "check_timestamp e (JObj ((k, v) # kvs)) s = check_timestamp e (JObj kvs) s"
    unfolding check_timestamp_def timeDiff_def eqs ..
qed

lemma score_reading_object:
  "score_reading e (JObj kvs) cfg =
     and_then (check_range e cfg (JObj kvs) (check_unitName (JObj kvs) (check_value (JObj kvs) ([], 100))))
       (\<lambda>s3. and_then (check_unit e cfg (JObj kvs) s3)
       (\<lambda>s4. and_then (check_timestamp e (JObj kvs) s4)
       (\<lambda>s5. Inr (completeness (JObj kvs) s5))))"
  by (simp add: score_reading_def)

lemma completeness_present:
  assumes "truthy v" "\<not> truthy (get_prop (JObj kvs) k)"
  shows "k = ''deviceId'' \<Longrightarrow>
           completeness (JObj kvs) s = (fst (completeness (JObj ((k, v) # kvs)) s),
                                        snd (completeness (JObj ((k, v) # kvs)) s) - 5)"
    and "k = ''bikeId'' \<Longrightarrow>
           completeness (JObj kvs) s = (fst (completeness (JObj ((k, v) # kvs)) s),
                                        snd (completeness (JObj ((k, v) # kvs)) s) - 5)"
    and "k = ''metadata'' \<Longrightarrow>
           completeness (JObj kvs) s = (fst (completeness (JObj ((k, v) # kvs)) s),
                                        snd (completeness (JObj ((k, v) # kvs)) s) - 2)"
  using assms by (auto simp: completeness_def deduct_def)

lemma score_reading_without_field:
  assumes "k \<noteq> ''value''" "k \<noteq> ''unitName''" "k \<noteq> ''timestamp''"
    and "\<And>s. completeness (JObj kvs) s =
            (fst (completeness (JObj ((k, v) # kvs)) s), snd (completeness (JObj ((k, v) # kvs)) s) - c)"
    and "score_reading e (JObj ((k, v) # kvs)) cfg = Inr (errs, q)"
  shows "score_reading e (JObj kvs) cfg = Inr (errs, q - c)"
proof -
  from assms(5) obtain s3 s4 s5 where st:
    "check_range e cfg (JObj ((k, v) # kvs))
       (check_unitName (JObj ((k, v) # kvs)) (check_value (JObj ((k, v) # kvs)) ([], 100))) = Inr s3"
    "check_unit e cfg (JObj ((k, v) # kvs)) s3 = Inr s4"
    "check_timestamp e (JObj ((k, v) # kvs)) s4 = Inr s5"
    "(errs, q) = completeness (JObj ((k, v) # kvs)) s5"
    by (rule score_reading_stages)
  from st(1-3) have
    "check_range e cfg (JObj kvs) (check_unitName (JObj kvs) (check_value (JObj kvs) ([], 100))) = Inr s3"
    "check_unit e cfg (JObj kvs) s3 = Inr s4"
    "check_timestamp e (JObj kvs) s4 = Inr s5"
    by (simp_all add: stages_ignore_other_fields [OF assms(1-3)])
  then have "score_reading e (JObj kvs) cfg = Inr (completeness (JObj kvs) s5)"
    by (simp add: score_reading_object and_then_def)
  also have "completeness (JObj kvs) s5 = (errs, q - c)"
    using assms(4) [of s5] st(4) [symmetric] by simp
  finally show ?thesis .
qed

lemma enhance_ignores_field:
  assumes "k \<noteq> ''value''" "k \<noteq> ''reportedAt''"
  shows "(enhance e (JObj ((k, v) # kvs)) q = None) = (enhance e (JObj kvs) q' = None)"
proof -
  have other: "get_prop (JObj ((k, v) # kvs)) k' = get_prop (JObj kvs) k'" if "k' \<noteq> k" for k'
    using that by simp
  note eqs = other [OF assms(1) [symmetric]] other [OF assms(2) [symmetric]]
  show ?thesis
    unfolding enhance_def eqs by (simp split: option.splits)
qed

lemma validate_without_field:
  assumes names: "k \<noteq> ''value''" "k \<noteq> ''unitName''" "k \<noteq> ''timestamp''" "k \<noteq> ''reportedAt''"
    and cost: "\<And>s. completeness (JObj kvs) s =
            (fst (completeness (JObj ((k, v) # kvs)) s), snd (completeness (JObj ((k, v) # kvs)) s) - c)"
    and scored: "score_reading e (JObj ((k, v) # kvs)) cfg = Inr (errs, q)"
  shows "score_reading e (JObj kvs) cfg = Inr (errs, q - c)
       \<and> errors (validateEnhancedKafkaDeviceData e (JObj kvs) cfg) =
           errors (validateEnhancedKafkaDeviceData e (JObj ((k, v) # kvs)) cfg)
       \<and> isValid (validateEnhancedKafkaDeviceData e (JObj kvs) cfg) =
           isValid (validateEnhancedKafkaDeviceData e (JObj ((k, v) # kvs)) cfg)
       \<and> (data (validateEnhancedKafkaDeviceData e (JObj ((k, v) # kvs)) cfg) \<noteq> None \<longrightarrow>
             validationResult.qualityScore (validateEnhancedKafkaDeviceData e (JObj ((k, v) # kvs)) cfg)
               = max 0 q
           \<and> validationResult.qualityScore (validateEnhancedKafkaDeviceData e (JObj kvs) cfg)
               = max 0 (q - c)
           \<and> errors (validateEnhancedKafkaDeviceData e (JObj kvs) cfg) = errs
           \<and> (\<exists>d. data (validateEnhancedKafkaDeviceData e (JObj kvs) cfg) = Some d
                 \<and> enhancedData.qualityScore d = max 0 (q - c)))"
proof -
  note without = score_reading_without_field [OF names(1-3) cost scored]
  show ?thesis
  proof (cases "enhance e (JObj ((k, v) # kvs)) q")
    case None
    with enhance_ignores_field [OF names(1,4), of e v kvs q "q - c"]
    have "enhance e (JObj kvs) (q - c) = None" by simp
    with None without scored show ?thesis
      by (simp add: validateEnhancedKafkaDeviceData_def)
  next
    case (Some ed)
    with enhance_ignores_field [OF names(1,4), of e v kvs q "q - c"]
    obtain ed' where ed': "enhance e (JObj kvs) (q - c) = Some ed'" by auto
    from enhance_fields [OF ed'] have "enhancedData.qualityScore ed' = max 0 (q - c)" by simp
    with Some ed' without scored show ?thesis
      by (simp add: validateEnhancedKafkaDeviceData_def)
  qed
qed

text \<open>
  Claim C3, as the code has it. A missing (absent or falsy) \<^verbatim>\<open>deviceId\<close> costs 5 points
  of the running score, a missing \<^verbatim>\<open>bikeId\<close> 5 points and a missing \<^verbatim>\<open>metadata\<close>
  2 points; in each case the error list and the validity are those of the reading that
  has the field. The score the validator reports, and writes into the reading, is the
  running score clamped at 0: \<open>max 0 q\<close> with the field and \<open>max 0 (q - c)\<close> without.
\<close>

theorem completeness_deductions:
  assumes "truthy v" and "\<not> truthy (get_prop (JObj kvs) k)"
    and "score_reading e (JObj ((k, v) # kvs)) cfg = Inr (errs, q)"
  shows "\<forall>c. (k = ''deviceId'' \<and> c = 5) \<or> (k = ''bikeId'' \<and> c = 5) \<or> (k = ''metadata'' \<and> c = 2) \<longrightarrow>
           score_reading e (JObj kvs) cfg = Inr (errs, q - c)
         \<and> errors (validateEnhancedKafkaDeviceData e (JObj kvs) cfg) =
             errors (validateEnhancedKafkaDeviceData e (JObj ((k, v) # kvs)) cfg)
         \<and> isValid (validateEnhancedKafkaDeviceData e (JObj kvs) cfg) =
             isValid (validateEnhancedKafkaDeviceData e (JObj ((k, v) # kvs)) cfg)
         \<and> (data (validateEnhancedKafkaDeviceData e (JObj ((k, v) # kvs)) cfg) \<noteq> None \<longrightarrow>
               validationResult.qualityScore (validateEnhancedKafkaDeviceData e (JObj ((k, v) # kvs)) cfg)
                 = max 0 q
             \<and> validationResult.qualityScore (validateEnhancedKafkaDeviceData e (JObj kvs) cfg)
                 = max 0 (q - c)
             \<and> errors (validateEnhancedKafkaDeviceData e (JObj kvs) cfg) = errs
             \<and> (\<exists>d. data (validateEnhancedKafkaDeviceData e (JObj kvs) cfg) = Some d
                   \<and> enhancedData.qualityScore d = max 0 (q - c)))"
proof (intro allI impI, elim disjE conjE)
  fix c :: int
  assume k: "k = ''deviceId''" and c: "c = 5"
  show "score_reading e (JObj kvs) cfg = Inr (errs, q - c)
      \<and> errors (validateEnhancedKafkaDeviceData e (JObj kvs) cfg) =
          errors (validateEnhancedKafkaDeviceData e (JObj ((k, v) # kvs)) cfg)
      \<and> isValid (validateEnhancedKafkaDeviceData e (JObj kvs) cfg) =
          isValid (validateEnhancedKafkaDeviceData e (JObj ((k, v) # kvs)) cfg)
      \<and> (data (validateEnhancedKafkaDeviceData e (JObj ((k, v) # kvs)) cfg) \<noteq> None \<longrightarrow>
            validationResult.qualityScore (validateEnhancedKafkaDeviceData e (JObj ((k, v) # kvs)) cfg)
              = max 0 q
          \<and> validationResult.qualityScore (validateEnhancedKafkaDeviceData e (JObj kvs) cfg)
              = max 0 (q - c)
          \<and> errors (validateEnhancedKafkaDeviceData e (JObj kvs) cfg) = errs
          \<and> (\<exists>d. data (validateEnhancedKafkaDeviceData e (JObj kvs) cfg) = Some d
                \<and> enhancedData.qualityScore d = max 0 (q - c)))"
    unfolding c
    by (rule validate_without_field [OF _ _ _ _ completeness_present(1) [OF assms(1,2) k] assms(3)])
       (simp_all add: k)
next
  fix c :: int
  assume k: "k = ''bikeId''" and c: "c = 5"
  show "score_reading e (JObj kvs) cfg = Inr (errs, q - c)
      \<and> errors (validateEnhancedKafkaDeviceData e (JObj kvs) cfg) =
          errors (validateEnhancedKafkaDeviceData e (JObj ((k, v) # kvs)) cfg)
      \<and> isValid (validateEnhancedKafkaDeviceData e (JObj kvs) cfg) =
          isValid (validateEnhancedKafkaDeviceData e (JObj ((k, v) # kvs)) cfg)
      \<and> (data (validateEnhancedKafkaDeviceData e (JObj ((k, v) # kvs)) cfg) \<noteq> None \<longrightarrow>
            validationResult.qualityScore (validateEnhancedKafkaDeviceData e (JObj ((k, v) # kvs)) cfg)
              = max 0 q
          \<and> validationResult.qualityScore (validateEnhancedKafkaDeviceData e (JObj kvs) cfg)
              = max 0 (q - c)
          \<and> errors (validateEnhancedKafkaDeviceData e (JObj kvs) cfg) = errs
          \<and> (\<exists>d. data (validateEnhancedKafkaDeviceData e (JObj kvs) cfg) = Some d
                \<and> enhancedData.qualityScore d = max 0 (q - c)))"
    unfolding c
    by (rule validate_without_field [OF _ _ _ _ completeness_present(2) [OF assms(1,2) k] assms(3)])
       (simp_all add: k)
next
  fix c :: int
  assume k: "k = ''metadata''" and c: "c = 2"
  show "score_reading e (JObj kvs) cfg = Inr (errs, q - c)
      \<and> errors (validateEnhancedKafkaDeviceData e (JObj kvs) cfg) =
          errors (validateEnhancedKafkaDeviceData e (JObj ((k, v) # kvs)) cfg)
      \<and> isValid (validateEnhancedKafkaDeviceData e (JObj kvs) cfg) =
          isValid (validateEnhancedKafkaDeviceData e (JObj ((k, v) # kvs)) cfg)
      \<and> (data (validateEnhancedKafkaDeviceData e (JObj ((k, v) # kvs)) cfg) \<noteq> None \<longrightarrow>
            validationResult.qualityScore (validateEnhancedKafkaDeviceData e (JObj ((k, v) # kvs)) cfg)
              = max 0 q
          \<and> validationResult.qualityScore (validateEnhancedKafkaDeviceData e (JObj kvs) cfg)
              = max 0 (q - c)
          \<and> errors (validateEnhancedKafkaDeviceData e (JObj kvs) cfg) = errs
          \<and> (\<exists>d. data (validateEnhancedKafkaDeviceData e (JObj kvs) cfg) = Some d
                \<and> enhancedData.qualityScore d = max 0 (q - c)))"
    unfolding c
    by (rule validate_without_field [OF _ _ _ _ completeness_present(3) [OF assms(1,2) k] assms(3)])
       (simp_all add: k)
qed

text \<open>
  A reading where the clamp shows: with the two ids and a metadata object, and neither
  value nor unit, the running score is 100 - 50 - 30 - 20 = 0; without the metadata it
  is -2, and the validator reports 0 for both.
\<close>

lemma score_ids_with_metadata:
  "score_reading example_env (JObj ((''metadata'', JObj []) # payload_ids_only))
     (deviceConfig heartrate_info) =
       Inr ([InvalidValueField, InvalidUnitNameField, UnitMismatch ''bpm'' ''undefined''], 0)"
  by (simp add: validator_defs example_env_def example_conv_def payload_ids_only_def
      heartrate_info_def)

lemma data_ids_with_metadata:
  "data (validateEnhancedKafkaDeviceData example_env
      (JObj ((''metadata'', JObj []) # payload_ids_only)) (deviceConfig heartrate_info)) \<noteq> None"
  by (simp add: validator_defs example_env_def example_conv_def payload_ids_only_def
      heartrate_info_def)

theorem completeness_deductions_witness:
  "truthy (JObj []) \<and> \<not> truthy (get_prop (JObj payload_ids_only) ''metadata'')
   \<and> score_reading example_env (JObj ((''metadata'', JObj []) # payload_ids_only))
        (deviceConfig heartrate_info) =
          Inr ([InvalidValueField, InvalidUnitNameField, UnitMismatch ''bpm'' ''undefined''], 0)
   \<and> score_reading example_env (JObj payload_ids_only) (deviceConfig heartrate_info) =
          Inr ([InvalidValueField, InvalidUnitNameField, UnitMismatch ''bpm'' ''undefined''], - 2)
   \<and> validationResult.qualityScore (validateEnhancedKafkaDeviceData example_env
        (JObj ((''metadata'', JObj []) # payload_ids_only)) (deviceConfig heartrate_info)) = 0
   \<and> validationResult.qualityScore (validateEnhancedKafkaDeviceData example_env
        (JObj payload_ids_only) (deviceConfig heartrate_info)) = 0
   \<and> errors (validateEnhancedKafkaDeviceData example_env
        (JObj payload_ids_only) (deviceConfig heartrate_info)) =
          [InvalidValueField, InvalidUnitNameField, UnitMismatch ''bpm'' ''undefined'']"
proof -
  have a: "truthy (JObj [])" by simp
  have b: "\<not> truthy (get_prop (JObj payload_ids_only) ''metadata'')"
    by (simp add: payload_ids_only_def)
  have c: "(''metadata'' = ''deviceId'' \<and> (2::int) = 5) \<or> (''metadata'' = ''bikeId'' \<and> (2::int) = 5)
      \<or> (''metadata'' = ''metadata'' \<and> (2::int) = 2)" by simp
  note r = completeness_deductions [OF a b score_ids_with_metadata, THEN spec, of 2, THEN mp, OF c]
  note r1 = r [THEN conjunct1]
  note r4 = r [THEN conjunct2, THEN conjunct2, THEN conjunct2, THEN mp, OF data_ids_with_metadata]
  have m: "max 0 (0::int) = 0" "max 0 (0 - 2 :: int) = 0" "max 0 (- 2 :: int) = 0"
    "(0::int) - 2 = - 2" by simp_all
  from r1 r4 a b score_ids_with_metadata show ?thesis unfolding m by blast
qed


text \<open>
  The claim as written fails on \<^verbatim>\<open>metadata\<close>: the same heart-rate reading scores 100
  with a metadata object and 98 without one, not 95.
\<close>

theorem missing_metadata_costs_two:
  "validationResult.qualityScore
     (validateEnhancedKafkaDeviceData example_env
        (JObj ((''metadata'', JObj []) # payload_A_no_metadata)) (deviceConfig heartrate_info)) = 100
   \<and> validationResult.qualityScore
       (validateEnhancedKafkaDeviceData example_env (JObj payload_A_no_metadata)
          (deviceConfig heartrate_info)) = 98"
  by (simp add: validator_defs example_env_def example_conv_def payload_A_no_metadata_def
      heartrate_info_def)

subsection \<open>Scenario B\<close>

lemma score_B:
  "score_reading e payload_B (deviceConfig heartrate_info) =
     Inr ([ValueOutOfRange (NumberToString (conv e) (Fin 250)) 30 220 ''bpm''], 48)"
  by (simp add: score_reading_def and_then_def check_value_def check_unitName_def
      check_range_def check_unit_def check_timestamp_def timeDiff_def completeness_def
      deduct_def payload_B_def heartrate_info_def)

lemma score_B_with:
  assumes "truthy dv" "truthy bv" "truthy mv"
  shows "score_reading e (payload_B_with dv bv mv) (deviceConfig heartrate_info) =
     Inr ([ValueOutOfRange (NumberToString (conv e) (Fin 250)) 30 220 ''bpm''], 60)"
  using assms
  by (simp add: score_reading_def and_then_def check_value_def check_unitName_def
      check_range_def check_unit_def check_timestamp_def timeDiff_def completeness_def
      deduct_def payload_B_with_def heartrate_info_def)

lemma enhance_B: "\<exists>d. enhance e payload_B q = Some d"
  by (simp add: enhance_def payload_B_def)

lemma enhance_B_with: "\<exists>d. enhance e (payload_B_with dv bv mv) q = Some d"
  by (simp add: enhance_def payload_B_with_def)

lemma validate_scored:
  assumes "score_reading e d cfg = Inr (errs, q)" "enhance e d q = Some ed"
  shows "validateEnhancedKafkaDeviceData e d cfg =
           \<lparr>isValid = (errs = []), data = Some ed, qualityScore = max 0 q, errors = errs\<rparr>"
  using assms by (simp add: validateEnhancedKafkaDeviceData_def)

lemma heartrate_info_fields:
  "topicInfo.deviceId heartrate_info = ''000001''"
  "deviceType heartrate_info = Some DeviceType_heartRate"
  "\<not> isControlTopic heartrate_info"
  by (simp_all add: heartrate_info_def)

lemma heartrate_message_validated:
  assumes "heartbeat_ok e" "messageValue \<noteq> []" "JSON_parse e messageValue = Some rawData"
  shows "eachMessage e ''bike.000001.heartrate'' (Some messageValue) =
           validation_stage e heartrate_info rawData"
  by (rule eachMessage_validated)
     (simp add: reaches_validation_def assms parse_heartrate_topic, simp add: heartrate_info_def)

text \<open>
  Claim C2, as the code has it. The payload \<^verbatim>\<open>{value:250, unitName:"bpm"}\<close> carries no
  \<^verbatim>\<open>deviceId\<close>, \<^verbatim>\<open>bikeId\<close> or \<^verbatim>\<open>metadata\<close>, so it scores 100 - 40 - 5 - 5 - 2 = 48: it is
  invalid and flagged anomalous, and because 48 is below the drop threshold the consumer
  dead-letters it with \<^verbatim>\<open>VALIDATION_ERROR\<close> and makes no save attempt. The score 60 of
  the specification is that of the same reading with the three fields present; that
  reading is dead-lettered with \<^verbatim>\<open>VALIDATION_ERROR\<close> and then handed to the writer.
\<close>

theorem scenario_B_outcome:
  assumes "heartbeat_ok e" and "messageValue \<noteq> []"
  shows "(JSON_parse e messageValue = Some payload_B \<longrightarrow>
            (\<exists>d. validateEnhancedKafkaDeviceData e payload_B (deviceConfig heartrate_info) =
                   \<lparr>isValid = False, data = Some d, qualityScore = 48,
                    errors = [ValueOutOfRange (NumberToString (conv e) (Fin 250)) 30 220 ''bpm'']\<rparr>
                 \<and> anomalyDetected d \<and> enhancedData.qualityScore d = 48)
          \<and> eachMessage e ''bike.000001.heartrate'' (Some messageValue) =
              [DLQ ''VALIDATION_ERROR''
                 (ValidationContext
                    [ValueOutOfRange (NumberToString (conv e) (Fin 250)) 30 220 ''bpm''] 48)])
     \<and> (\<forall>dv bv mv. truthy dv \<and> truthy bv \<and> truthy mv \<and>
            JSON_parse e messageValue = Some (payload_B_with dv bv mv) \<longrightarrow>
            (\<exists>d. validateEnhancedKafkaDeviceData e (payload_B_with dv bv mv) (deviceConfig heartrate_info) =
                   \<lparr>isValid = False, data = Some d, qualityScore = 60,
                    errors = [ValueOutOfRange (NumberToString (conv e) (Fin 250)) 30 220 ''bpm'']\<rparr>
                 \<and> anomalyDetected d \<and> enhancedData.qualityScore d = 60
                 \<and> eachMessage e ''bike.000001.heartrate'' (Some messageValue) =
                     DLQ ''VALIDATION_ERROR''
                       (ValidationContext
                          [ValueOutOfRange (NumberToString (conv e) (Fin 250)) 30 220 ''bpm''] 60)
                     # save_stage e (Some d) ''000001'' (Some DeviceType_heartRate)))"
proof (intro conjI impI allI; (elim conjE)?)
  obtain d where d: "enhance e payload_B 48 = Some d" using enhance_B by blast
  note v = validate_scored [OF score_B d]
  from enhance_fields [OF d] have f: "anomalyDetected d" "enhancedData.qualityScore d = 48"
    by simp_all
  from v f show "\<exists>d. validateEnhancedKafkaDeviceData e payload_B (deviceConfig heartrate_info) =
       \<lparr>isValid = False, data = Some d, qualityScore = 48,
        errors = [ValueOutOfRange (NumberToString (conv e) (Fin 250)) 30 220 ''bpm'']\<rparr>
     \<and> anomalyDetected d \<and> enhancedData.qualityScore d = 48"
    by simp
  assume p: "JSON_parse e messageValue = Some payload_B"
  show "eachMessage e ''bike.000001.heartrate'' (Some messageValue) =
      [DLQ ''VALIDATION_ERROR''
         (ValidationContext [ValueOutOfRange (NumberToString (conv e) (Fin 250)) 30 220 ''bpm''] 48)]"
    unfolding heartrate_message_validated [OF assms p]
    by (simp add: validation_stage_def v)
next
  fix dv bv mv
  assume t: "truthy dv" "truthy bv" "truthy mv"
    and p: "JSON_parse e messageValue = Some (payload_B_with dv bv mv)"
  obtain d where d: "enhance e (payload_B_with dv bv mv) 60 = Some d"
    using enhance_B_with by blast
  note v = validate_scored [OF score_B_with [OF t] d]
  from enhance_fields [OF d] have f: "anomalyDetected d" "enhancedData.qualityScore d = 60"
    by simp_all
  have "eachMessage e ''bike.000001.heartrate'' (Some messageValue) =
      DLQ ''VALIDATION_ERROR''
         (ValidationContext [ValueOutOfRange (NumberToString (conv e) (Fin 250)) 30 220 ''bpm''] 60)
      # save_stage e (Some d) ''000001'' (Some DeviceType_heartRate)"
    unfolding heartrate_message_validated [OF assms p]
    by (simp add: validation_stage_def v heartrate_info_fields)
  with v f show "\<exists>d. validateEnhancedKafkaDeviceData e (payload_B_with dv bv mv) (deviceConfig heartrate_info) =
       \<lparr>isValid = False, data = Some d, qualityScore = 60,
        errors = [ValueOutOfRange (NumberToString (conv e) (Fin 250)) 30 220 ''bpm'']\<rparr>
     \<and> anomalyDetected d \<and> enhancedData.qualityScore d = 60
     \<and> eachMessage e ''bike.000001.heartrate'' (Some messageValue) =
         DLQ ''VALIDATION_ERROR''
           (ValidationContext
              [ValueOutOfRange (NumberToString (conv e) (Fin 250)) 30 220 ''bpm''] 60)
         # save_stage e (Some d) ''000001'' (Some DeviceType_heartRate)"
    by simp
qed

lemma example_env_simps [simp]:
  "heartbeat_ok example_env" "JSON_parse example_env = example_parse"
  "conv example_env = example_conv" "save_error example_env k = None"
  "now example_env = 1700000000000"
  by (simp_all add: example_env_def)

lemma example_parse_simps [simp]:
  "example_parse message_B = Some payload_B"
  "example_parse message_B_complete = Some payload_B_complete"
  "example_parse message_A_no_metadata = Some (JObj payload_A_no_metadata)"
  "message_B \<noteq> []" "message_B_complete \<noteq> []" "message_A_no_metadata \<noteq> []"
  by (simp_all add: example_parse_def message_B_def message_B_complete_def
      message_A_no_metadata_def)

theorem scenario_B_outcome_witness:
  "heartbeat_ok example_env \<and> message_B \<noteq> [] \<and> JSON_parse example_env message_B = Some payload_B
   \<and> eachMessage example_env ''bike.000001.heartrate'' (Some message_B) =
       [DLQ ''VALIDATION_ERROR'' (ValidationContext [ValueOutOfRange ''250'' 30 220 ''bpm''] 48)]"
proof -
  have h: "heartbeat_ok example_env" "message_B \<noteq> []" by simp_all
  have p: "JSON_parse example_env message_B = Some payload_B" by simp
  from scenario_B_outcome [OF h] p
  have "eachMessage example_env ''bike.000001.heartrate'' (Some message_B) =
      [DLQ ''VALIDATION_ERROR''
         (ValidationContext
            [ValueOutOfRange (NumberToString (conv example_env) (Fin 250)) 30 220 ''bpm''] 48)]"
    by blast
  with h p show ?thesis by (simp add: example_conv_def)
qed

text \<open>
  The claim as written fails on its own payload: the score is 48, not 60, and nothing is
  stored.
\<close>

theorem scenario_B_is_dropped:
  "validationResult.qualityScore
     (validateEnhancedKafkaDeviceData example_env payload_B (deviceConfig heartrate_info)) = 48
   \<and> eachMessage example_env ''bike.000001.heartrate'' (Some message_B) =
       [DLQ ''VALIDATION_ERROR'' (ValidationContext [ValueOutOfRange ''250'' 30 220 ''bpm''] 48)]
   \<and> persisted (eachMessage example_env ''bike.000001.heartrate'' (Some message_B)) = []"
proof -
  have v: "validateEnhancedKafkaDeviceData example_env payload_B (deviceConfig heartrate_info) =
      \<lparr>isValid = False,
       data = Some \<lparr>source = payload_B, value_num = Fin 250, timestamp = JNum (Fin 1700000000),
                    reportedAt = Fin 1700000000000, metadata = JObj [],
                    messageId = JStr ''msg_1700000000000_k3j9x2m1q'', version = JStr ''2.0'',
                    receivedAt = 1700000000000, processedAt = 1700000000000,
                    qualityScore = 48, anomalyDetected = True\<rparr>,
       qualityScore = 48, errors = [ValueOutOfRange ''250'' 30 220 ''bpm'']\<rparr>"
    by (simp add: validator_defs example_env_def example_conv_def payload_B_def heartrate_info_def)
  have "eachMessage example_env ''bike.000001.heartrate'' (Some message_B) =
      validation_stage example_env heartrate_info payload_B"
    by (rule heartrate_message_validated) simp_all
  then show ?thesis by (simp add: validation_stage_def v)
qed

subsection \<open>Terminal outcomes\<close>

text \<open>
  Claim C1, as the code has it. A valid reading reaches exactly one outcome: it is stored
  and not dead-lettered, or it is dead-lettered once, with \<^verbatim>\<open>DATABASE_SAVE_ERROR\<close>, and
  not stored. An invalid reading is always dead-lettered with \<^verbatim>\<open>VALIDATION_ERROR\<close>.
  With a score below 50 that is all: no save is attempted. With a score of 50 or more it
  is handed to the writer after the dead-letter call, so it ends dead-lettered and
  stored, or dead-lettered twice.
\<close>

theorem validated_reading_outcomes:
  assumes "reaches_validation e topic msg info rawData"
  shows "let vr = validateEnhancedKafkaDeviceData e rawData (deviceConfig info);
             effs = eachMessage e topic msg;
             rejected = (''VALIDATION_ERROR'',
                         ValidationContext (errors vr) (validationResult.qualityScore vr));
             unsaved = (''DATABASE_SAVE_ERROR'', DeviceDataContext (data vr))
         in (isValid vr \<longrightarrow>
               (\<exists>x. data vr = Some x \<and> persisted effs = [x] \<and> dead_letters effs = []) \<or>
               (persisted effs = [] \<and> dead_letters effs = [unsaved]))
          \<and> (\<not> isValid vr \<and> validationResult.qualityScore vr < 50 \<longrightarrow>
               persisted effs = [] \<and> attempts effs = [] \<and> dead_letters effs = [rejected])
          \<and> (\<not> isValid vr \<and> 50 \<le> validationResult.qualityScore vr \<longrightarrow>
               (\<exists>x. data vr = Some x \<and> persisted effs = [x] \<and> dead_letters effs = [rejected]) \<or>
               (persisted effs = [] \<and> dead_letters effs = [rejected, unsaved]))"
proof -
  let ?vr = "validateEnhancedKafkaDeviceData e rawData (deviceConfig info)"
  let ?save = "save_stage e (data ?vr) (topicInfo.deviceId info) (deviceType info)"
  note eq = eachMessage_validated [OF assms]
  note out = save_stage_outcome [of "data ?vr" e "topicInfo.deviceId info" "deviceType info"]
  have valid: "(\<exists>x. data ?vr = Some x \<and> persisted (eachMessage e topic msg) = [x]
          \<and> dead_letters (eachMessage e topic msg) = []) \<or>
        (persisted (eachMessage e topic msg) = [] \<and>
         dead_letters (eachMessage e topic msg) = [(''DATABASE_SAVE_ERROR'', DeviceDataContext (data ?vr))])"
    if "isValid ?vr"
    using out unfolding eq validation_stage_valid [OF that] by blast
  have dropped: "persisted (eachMessage e topic msg) = [] \<and> attempts (eachMessage e topic msg) = []
        \<and> dead_letters (eachMessage e topic msg) =
            [(''VALIDATION_ERROR'', ValidationContext (errors ?vr) (validationResult.qualityScore ?vr))]"
    if "\<not> isValid ?vr" "validationResult.qualityScore ?vr < 50"
    unfolding eq validation_stage_dropped [OF that] by simp
  have flagged: "(\<exists>x. data ?vr = Some x \<and> persisted (eachMessage e topic msg) = [x]
          \<and> dead_letters (eachMessage e topic msg) =
              [(''VALIDATION_ERROR'', ValidationContext (errors ?vr) (validationResult.qualityScore ?vr))]) \<or>
        (persisted (eachMessage e topic msg) = [] \<and>
         dead_letters (eachMessage e topic msg) =
           [(''VALIDATION_ERROR'', ValidationContext (errors ?vr) (validationResult.qualityScore ?vr)),
            (''DATABASE_SAVE_ERROR'', DeviceDataContext (data ?vr))])"
    if "\<not> isValid ?vr" "50 \<le> validationResult.qualityScore ?vr"
    using out unfolding eq validation_stage_flagged [OF that] by auto
  from valid dropped flagged show ?thesis unfolding Let_def by blast
qed

lemma validate_A_no_metadata:
  "validateEnhancedKafkaDeviceData example_env (JObj payload_A_no_metadata) (deviceConfig heartrate_info) =
     \<lparr>isValid = True, data = Some reading_A_no_metadata, qualityScore = 98, errors = []\<rparr>"
  by (simp add: validator_defs example_env_def example_conv_def payload_A_no_metadata_def
      heartrate_info_def reading_A_no_metadata_def)

lemma example_reaches_validation:
  "reaches_validation example_env ''bike.000001.heartrate'' (Some message_A_no_metadata)
     heartrate_info (JObj payload_A_no_metadata)"
  "reaches_validation example_env ''bike.000001.heartrate'' (Some message_B_complete)
     heartrate_info payload_B_complete"
  by (simp_all add: reaches_validation_def parse_heartrate_topic heartrate_info_fields)

theorem validated_reading_outcomes_witness:
  "reaches_validation example_env ''bike.000001.heartrate'' (Some message_A_no_metadata)
     heartrate_info (JObj payload_A_no_metadata)
   \<and> isValid (validateEnhancedKafkaDeviceData example_env (JObj payload_A_no_metadata)
        (deviceConfig heartrate_info))
   \<and> persisted (eachMessage example_env ''bike.000001.heartrate'' (Some message_A_no_metadata))
       = [reading_A_no_metadata]
   \<and> dead_letters (eachMessage example_env ''bike.000001.heartrate'' (Some message_A_no_metadata)) = []"
proof -
  note r = example_reaches_validation(1)
  have v: "isValid (validateEnhancedKafkaDeviceData example_env (JObj payload_A_no_metadata)
        (deviceConfig heartrate_info))"
    by (simp add: validate_A_no_metadata)
  have p: "persisted (eachMessage example_env ''bike.000001.heartrate'' (Some message_A_no_metadata))
      = [reading_A_no_metadata]"
    unfolding eachMessage_validated [OF r] validation_stage_valid [OF v]
    by (simp add: validate_A_no_metadata save_stage_first_attempt_stores)
  from validated_reading_outcomes [OF r] v p
  have "dead_letters (eachMessage example_env ''bike.000001.heartrate'' (Some message_A_no_metadata)) = []"
    unfolding Let_def by auto
  with r v p show ?thesis by blast
qed

text \<open>
  The claim as written fails on the complete reading of scenario B: it is invalid with
  score 60, and it is both dead-lettered and stored.
\<close>

theorem invalid_reading_dead_lettered_and_persisted:
  "\<not> isValid (validateEnhancedKafkaDeviceData example_env payload_B_complete (deviceConfig heartrate_info))
   \<and> validationResult.qualityScore
       (validateEnhancedKafkaDeviceData example_env payload_B_complete (deviceConfig heartrate_info)) = 60
   \<and> dead_letters (eachMessage example_env ''bike.000001.heartrate'' (Some message_B_complete)) =
       [(''VALIDATION_ERROR'', ValidationContext [ValueOutOfRange ''250'' 30 220 ''bpm''] 60)]
   \<and> persisted (eachMessage example_env ''bike.000001.heartrate'' (Some message_B_complete)) =
       [reading_B_complete]"
  unfolding eachMessage_validated [OF example_reaches_validation(2)]
  by (simp add: validation_stage_def validate_B_complete save_stage_first_attempt_stores)

subsection \<open>Retry law\<close>





lemma failing_store_env_simps [simp]:
  "save_error failing_store_env k = Some ''MongoNetworkError''"
  "random failing_store_env k = 1 / 2"
  by (simp_all add: failing_store_env_def example_env_def)


section \<open>Distribution Bridge: properties\<close>

declare digits.simps [simp del]

lemma sse_id_example: "sse_id 1700000200000 = ''sse_1700000200000''"
  by (simp add: sse_id_def decimal_int_def digit_def digits.simps)

lemma ws_recipients_append [simp]: "ws_recipients (xs @ ys) = ws_recipients xs @ ws_recipients ys"
  by (induction xs rule: ws_recipients.induct) simp_all

lemma sse_recipients_append [simp]: "sse_recipients (xs @ ys) = sse_recipients xs @ sse_recipients ys"
  by (induction xs rule: sse_recipients.induct) simp_all

lemma written_to_append [simp]: "written_to (xs @ ys) = written_to xs @ written_to ys"
  by (induction xs rule: written_to.induct) simp_all

lemma written_to_emitted [simp]: "written_to (map (\<lambda>sid. SensorData sid md) sids) = []"
  by (induction sids) simp_all

lemma ws_recipients_emitted [simp]: "ws_recipients (map (\<lambda>sid. SensorData sid md) sids) = sids"
  by (induction sids) simp_all

lemma sse_recipients_emitted [simp]: "sse_recipients (map (\<lambda>sid. SensorData sid md) sids) = []"
  by (induction sids) simp_all

lemma SensorData_in_iff: "SensorData sid md \<in> set out \<Longrightarrow> sid \<in> set (ws_recipients out)"
  by (induction out rule: ws_recipients.induct) auto

lemma set_fold_set_add: "set (fold set_add xs ys) = set xs \<union> set ys"
  by (induction xs arbitrary: ys) (auto simp: set_add_def)

lemma set_fold_join:
  "set (fold (\<lambda>r. set_add (sid, r)) xs rs) = set rs \<union> (\<lambda>r. (sid, r)) ` set xs"
  by (induction xs arbitrary: rs) (auto simp: set_add_def)

lemma members_iff: "sid \<in> set (members room rs) \<longleftrightarrow> (sid, room) \<in> set rs"
  by (auto simp: members_def intro: rev_image_eqI)

subsection \<open>The passes of the fan-out\<close>

lemma touch_subscribers_keys [simp]: "map fst (touch_subscribers room n conns) = map fst conns"
  by (induction conns) (simp_all add: touch_subscribers_def)

lemma touch_subscribers_entry:
  "(k, c') \<in> set (touch_subscribers room n conns) \<Longrightarrow>
     \<exists>c. (k, c) \<in> set conns \<and> subscriptions c' = subscriptions c \<and> type_c c' = type_c c
       \<and> connection c' = connection c"
  by (auto simp: touch_subscribers_def split: if_splits)

lemma touch_subscribers_present:
  "(k, c) \<in> set conns \<Longrightarrow>
     \<exists>c'. (k, c') \<in> set (touch_subscribers room n conns) \<and> connection c' = connection c"
  by (induction conns) (auto simp: touch_subscribers_def)

lemma sse_pass_keys:
  "map fst (fst (sse_pass fe md conns)) =
     map fst (filter (\<lambda>p. \<not> (is_sse_key (fst p) \<and> write_throws fe (connection (snd p)))) conns)"
  by (induction conns) (auto simp: Let_def)

lemma sse_pass_entry:
  "(k, c') \<in> set (fst (sse_pass fe md conns)) \<Longrightarrow>
     \<exists>c. (k, c) \<in> set conns \<and> subscriptions c' = subscriptions c \<and> type_c c' = type_c c
       \<and> connection c' = connection c"
  by (induction conns) (auto simp: Let_def split: if_splits)

text \<open>
  The pass writes to the connection object of each record that has an \<^verbatim>\<open>sse_\<close> key and
  whose \<^verbatim>\<open>write\<close> does not throw, once, in the order of the registry, and produces
  nothing else.
\<close>

lemma sse_pass_output:
  "snd (sse_pass fe md conns) =
     map (\<lambda>p. SseWrite (fst p) (connection (snd p)) md)
       (filter (\<lambda>p. is_sse_key (fst p) \<and> \<not> write_throws fe (connection (snd p))) conns)"
  by (induction conns) (auto simp: Let_def)

lemma sse_pass_recipients:
  "sse_recipients (snd (sse_pass fe md conns)) =
     map fst (filter (\<lambda>p. is_sse_key (fst p) \<and> \<not> write_throws fe (connection (snd p))) conns)"
  by (induction conns) (auto simp: Let_def)

lemma sse_pass_written:
  "written_to (snd (sse_pass fe md conns)) =
     map (\<lambda>p. connection (snd p))
       (filter (\<lambda>p. is_sse_key (fst p) \<and> \<not> write_throws fe (connection (snd p))) conns)"
  by (induction conns) (auto simp: Let_def)

lemma sse_pass_writes:
  "(k, c) \<in> set conns \<Longrightarrow> is_sse_key k \<Longrightarrow> \<not> write_throws fe (connection c) \<Longrightarrow>
     SseWrite k (connection c) md \<in> set (snd (sse_pass fe md conns))"
  by (induction conns) (auto simp: Let_def)

lemma sse_pass_only:
  "x \<in> set (snd (sse_pass fe md conns)) \<Longrightarrow>
     \<exists>k c. x = SseWrite k (connection c) md \<and> (k, c) \<in> set conns \<and> is_sse_key k
       \<and> \<not> write_throws fe (connection c)"
  unfolding sse_pass_output by auto

lemma sse_pass_no_emit [simp]: "ws_recipients (snd (sse_pass fe md conns)) = []"
  by (induction conns) (auto simp: Let_def)

text \<open>What one message sends, when it reaches the fan-out.\<close>

lemma fan_out_ws_recipients:
  "ws_recipients (snd (fan_out fe topic d s)) =
     members (room_of (split_dot topic ! 1) (split_dot topic ! 2)) (rooms s)"
  by (simp add: fan_out_def Let_def)

lemma filter_touch_subscribers:
  "map (\<lambda>p. g (fst p) (connection (snd p)))
     (filter (\<lambda>p. P (fst p) (connection (snd p))) (touch_subscribers room n conns)) =
   map (\<lambda>p. g (fst p) (connection (snd p)))
     (filter (\<lambda>p. P (fst p) (connection (snd p))) conns)"
  by (induction conns) (simp_all add: touch_subscribers_def)

lemma map_filter_subset: "set (map f (filter P xs)) \<subseteq> set (map f xs)"
  by auto

lemma fan_out_sse_recipients:
  "sse_recipients (snd (fan_out fe topic d s)) =
     map fst (filter (\<lambda>p. is_sse_key (fst p) \<and> \<not> write_throws fe (connection (snd p)))
       (activeConnections s))"
  using filter_touch_subscribers [of "\<lambda>k h. k" "\<lambda>k h. is_sse_key k \<and> \<not> write_throws fe h"
      "room_of (split_dot topic ! 1) (split_dot topic ! 2)" "clock fe" "activeConnections s"]
  by (simp add: fan_out_def Let_def sse_pass_recipients)

lemma fan_out_written_to:
  "written_to (snd (fan_out fe topic d s)) =
     map (\<lambda>p. connection (snd p))
       (filter (\<lambda>p. is_sse_key (fst p) \<and> \<not> write_throws fe (connection (snd p)))
         (activeConnections s))"
  using filter_touch_subscribers [of "\<lambda>k h. h" "\<lambda>k h. is_sse_key k \<and> \<not> write_throws fe h"
      "room_of (split_dot topic ! 1) (split_dot topic ! 2)" "clock fe" "activeConnections s"]
  by (simp add: fan_out_def Let_def sse_pass_written)

lemma fan_out_rooms [simp]: "rooms (fst (fan_out fe topic d s)) = rooms s"
  by (simp add: fan_out_def Let_def)

lemma on_kafka_message_eq:
  "on_kafka_message topic msg fe s = (s, []) \<or>
   (\<exists>messageValue d. heartbeat_resolves fe \<and> msg = Some messageValue \<and> messageValue \<noteq> [] \<and>
      parse fe messageValue = Some d \<and> length (split_dot topic) \<ge> 3 \<and> \<not> nullish d \<and>
      on_kafka_message topic msg fe s = fan_out fe topic d s)"
  by (auto simp: on_kafka_message_def split: option.splits)

lemma on_kafka_message_cases:
  obtains (ignored) "on_kafka_message topic msg fe s = (s, [])"
  | (forwarded) messageValue d where "msg = Some messageValue" "messageValue \<noteq> []"
      "parse fe messageValue = Some d" "length (split_dot topic) \<ge> 3" "\<not> nullish d"
      "on_kafka_message topic msg fe s = fan_out fe topic d s" "heartbeat_resolves fe"
  using on_kafka_message_eq [of topic msg fe s] by blast

lemma on_kafka_message_rooms [simp]: "rooms (fst (on_kafka_message topic msg fe s)) = rooms s"
  by (cases topic msg fe s rule: on_kafka_message_cases) simp_all

lemma on_kafka_message_ws_recipients:
  "set (ws_recipients (snd (on_kafka_message topic msg fe s))) \<subseteq>
     set (members (room_of (split_dot topic ! 1) (split_dot topic ! 2)) (rooms s))"
  by (cases topic msg fe s rule: on_kafka_message_cases) (simp_all add: fan_out_ws_recipients)

lemma on_kafka_message_keys:
  "set (map fst (activeConnections (fst (on_kafka_message topic msg fe s)))) \<subseteq>
     set (map fst (activeConnections s))"
proof (cases topic msg fe s rule: on_kafka_message_cases)
  case ignored
  then show ?thesis by simp
next
  case (forwarded messageValue d)
  let ?touched = "touch_subscribers (room_of (split_dot topic ! 1) (split_dot topic ! 2))
      (clock fe) (activeConnections s)"
  have "map fst (activeConnections (fst (fan_out fe topic d s))) =
      map fst (filter (\<lambda>p. \<not> (is_sse_key (fst p) \<and> write_throws fe (connection (snd p))))
        ?touched)"
    by (simp add: fan_out_def Let_def sse_pass_keys)
  moreover have "set (map fst (filter (\<lambda>p. \<not> (is_sse_key (fst p) \<and>
      write_throws fe (connection (snd p)))) ?touched)) \<subseteq> set (map fst ?touched)"
    by (rule map_filter_subset)
  ultimately have "set (map fst (activeConnections (fst (fan_out fe topic d s)))) \<subseteq>
      set (map fst (activeConnections s))"
    by (simp only: touch_subscribers_keys)
  with forwarded(6) show ?thesis by simp
qed

lemma on_kafka_message_sse_recipients:
  "set (sse_recipients (snd (on_kafka_message topic msg fe s))) \<subseteq>
     set (map fst (activeConnections s))"
  by (cases topic msg fe s rule: on_kafka_message_cases)
     (auto simp: fan_out_sse_recipients)

subsection \<open>The registry after any sequence of events\<close>

lemma bridge_inv_iff:
  "bridge_inv s \<longleftrightarrow>
     distinct (map fst (activeConnections s)) \<and>
     (\<forall>k c. map_of (activeConnections s) k = Some c \<longrightarrow>
        (\<forall>r \<in> set (subscriptions c). (k, r) \<in> set (rooms s)) \<and>
        (type_c c = sse \<longrightarrow> is_sse_key k))"
  unfolding bridge_inv_def by (cases "distinct (map fst (activeConnections s))") auto

lemma map_of_filter_distinct:
  "distinct (map fst al) \<Longrightarrow>
     map_of (filter P al) k =
       (case map_of al k of None \<Rightarrow> None | Some c \<Rightarrow> if P (k, c) then Some c else None)"
proof (induction al)
  case Nil
  then show ?case by simp
next
  case (Cons p al)
  then have "fst p \<notin> fst ` set al" by simp
  then have "map_of (filter P al) (fst p) = None"
    by (auto simp: map_of_eq_None_iff)
  with Cons show ?case by (cases p) (auto split: option.splits)
qed

lemma is_sse_key_sse_id [simp]: "is_sse_key (sse_id n)"
  by (simp add: is_sse_key_def sse_id_def)

lemma initial_bridge_inv: "bridge_inv initial_bridge"
  by (simp add: bridge_inv_def initial_bridge_def)

lemma fresh_connection_fields [simp]:
  "subscriptions (fresh_connection k t h n) = []" "type_c (fresh_connection k t h n) = t"
  "lastActivity (fresh_connection k t h n) = n" "connection (fresh_connection k t h n) = h"
  by (simp_all add: fresh_connection_def)

lemma connect_inv:
  assumes "bridge_inv s" "t = sse \<longrightarrow> is_sse_key k"
  shows "bridge_inv (s\<lparr>activeConnections :=
            AList.update k (fresh_connection k t h n) (activeConnections s)\<rparr>)"
  using assms by (auto simp: bridge_inv_iff distinct_update update_conv')

lemma delete_inv:
  assumes "bridge_inv s"
  shows "bridge_inv (s\<lparr>activeConnections := AList.delete k (activeConnections s)\<rparr>)"
  using assms by (auto simp: bridge_inv_iff distinct_delete delete_conv' split: if_splits)

lemma disconnect_inv:
  assumes "bridge_inv s"
  shows "bridge_inv (s\<lparr>activeConnections := AList.delete sid (activeConnections s),
                       rooms := filter (\<lambda>p. fst p \<noteq> sid) (rooms s)\<rparr>)"
  using assms by (auto simp: bridge_inv_iff distinct_delete delete_conv' split: if_splits)

lemma reap_inv:
  assumes "bridge_inv s"
  shows "bridge_inv (reap n s)"
  using assms
  by (auto simp: bridge_inv_iff reap_def distinct_map_filter map_of_filter_distinct
      split: option.splits if_splits)

lemma subscribe_inv:
  assumes "bridge_inv s"
  shows "bridge_inv (fst (subscribe sid devId types n s))"
proof (cases "map_of (activeConnections s) sid")
  case None
  with assms show ?thesis by (simp add: subscribe_def)
next
  case (Some c)
  with assms show ?thesis
    by (auto simp: subscribe_def Let_def bridge_inv_iff distinct_update update_conv'
        set_fold_set_add set_fold_join split: if_splits)
qed

lemma fan_out_inv:
  assumes "bridge_inv s"
  shows "bridge_inv (fst (fan_out fe topic d s))"
proof -
  let ?room = "room_of (split_dot topic ! 1) (split_dot topic ! 2)"
  let ?touched = "touch_subscribers ?room (clock fe) (activeConnections s)"
  let ?conns = "fst (sse_pass fe (envelope fe topic d) ?touched)"
  from assms have dist: "distinct (map fst (activeConnections s))"
    by (simp add: bridge_inv_def)
  then have "distinct (map fst ?touched)" by simp
  then have dist': "distinct (map fst ?conns)"
    unfolding sse_pass_keys by (rule distinct_map_filter)
  have entry: "\<exists>c. (k, c) \<in> set (activeConnections s) \<and> subscriptions c' = subscriptions c
      \<and> type_c c' = type_c c" if "(k, c') \<in> set ?conns" for k c'
  proof -
    from sse_pass_entry [OF that] obtain c1 where
      "(k, c1) \<in> set ?touched" "subscriptions c' = subscriptions c1" "type_c c' = type_c c1"
      by blast
    with touch_subscribers_entry [of k c1] show ?thesis by fastforce
  qed
  have "bridge_inv (s\<lparr>activeConnections := ?conns\<rparr>)"
    unfolding bridge_inv_def
  proof (rule conjI, goal_cases)
    case 1
    show ?case using dist' by simp
  next
    case 2
    show ?case
    proof (rule ballI)
      fix p assume "p \<in> set (activeConnections (s\<lparr>activeConnections := ?conns\<rparr>))"
      then have "(fst p, snd p) \<in> set ?conns" by simp
      from entry [OF this] obtain c where c: "(fst p, c) \<in> set (activeConnections s)"
        "subscriptions (snd p) = subscriptions c" "type_c (snd p) = type_c c"
        by blast
      from assms c(1) have "(\<forall>r \<in> set (subscriptions c). (fst p, r) \<in> set (rooms s))
          \<and> (type_c c = sse \<longrightarrow> is_sse_key (fst p))"
        unfolding bridge_inv_def by force
      with c(2,3) show "(\<forall>r \<in> set (subscriptions (snd p)).
            (fst p, r) \<in> set (rooms (s\<lparr>activeConnections := ?conns\<rparr>)))
          \<and> (type_c (snd p) = sse \<longrightarrow> is_sse_key (fst p))"
        by simp
    qed
  qed
  then show ?thesis by (simp add: fan_out_def Let_def)
qed

lemma on_kafka_message_inv:
  assumes "bridge_inv s"
  shows "bridge_inv (fst (on_kafka_message topic msg fe s))"
  by (cases topic msg fe s rule: on_kafka_message_cases) (simp_all add: assms fan_out_inv)

lemma step_inv:
  assumes "bridge_inv s"
  shows "bridge_inv (fst (step s ev))"
  using assms
  by (cases ev)
     (simp_all add: connect_inv delete_inv disconnect_inv reap_inv subscribe_inv
        on_kafka_message_inv)

lemma run_fst [simp]: "fst (run s (ev # evs)) = fst (run (fst (step s ev)) evs)"
  by (simp add: Let_def)

lemma run_snd [simp]: "snd (run s (ev # evs)) = snd (step s ev) @ snd (run (fst (step s ev)) evs)"
  by (simp add: Let_def)

declare run.simps(2) [simp del]

lemma run_inv: "bridge_inv s \<Longrightarrow> bridge_inv (fst (run s evs))"
  by (induction evs arbitrary: s) (simp_all add: step_inv)

lemma reachable_inv: "run initial_bridge evs = (s, out) \<Longrightarrow> bridge_inv s"
  using run_inv [OF initial_bridge_inv, of evs] by simp

subsection \<open>Room memberships come from subscribe events\<close>

lemma step_rooms:
  assumes "(sid, r) \<in> set (rooms (fst (step s ev)))"
  shows "(sid, r) \<in> set (rooms s) \<or>
         (\<exists>devId types n. ev = WsSubscribe sid devId types n \<and>
            r \<in> room_of devId ` set (default_types types))"
  using assms
  by (cases ev) (auto simp: subscribe_def Let_def set_fold_join reap_def split: option.splits)

lemma has_subscribed_later:
  "has_subscribed evs sid devId t \<Longrightarrow> has_subscribed (ev # evs) sid devId t"
  by (cases ev) simp_all

lemma rooms_history:
  "(sid, r) \<in> set (rooms (fst (run s evs))) \<Longrightarrow>
     (sid, r) \<in> set (rooms s) \<or> (\<exists>devId t. has_subscribed evs sid devId t \<and> r = room_of devId t)"
proof (induction evs arbitrary: s)
  case Nil
  then show ?case by simp
next
  case (Cons ev evs)
  from Cons.prems have "(sid, r) \<in> set (rooms (fst (run (fst (step s ev)) evs)))" by simp
  from Cons.IH [OF this] show ?case
  proof
    assume "(sid, r) \<in> set (rooms (fst (step s ev)))"
    from step_rooms [OF this] show ?thesis
    proof
      assume "(sid, r) \<in> set (rooms s)"
      then show ?thesis ..
    next
      assume "\<exists>devId types n. ev = WsSubscribe sid devId types n \<and>
          r \<in> room_of devId ` set (default_types types)"
      then obtain devId types n t where "ev = WsSubscribe sid devId types n"
        "t \<in> set (default_types types)" "r = room_of devId t"
        by blast
      then have "has_subscribed (ev # evs) sid devId t \<and> r = room_of devId t" by simp
      then show ?thesis by blast
    qed
  next
    assume "\<exists>devId t. has_subscribed evs sid devId t \<and> r = room_of devId t"
    then show ?thesis by (blast intro: has_subscribed_later)
  qed
qed

subsection \<open>A key that is not registered again\<close>

lemma step_keeps_absent:
  assumes "k \<notin> fst ` set (activeConnections s)" "\<not> registers k ev"
  shows "k \<notin> fst ` set (activeConnections (fst (step s ev)))
       \<and> k \<notin> set (sse_recipients (snd (step s ev)))"
proof (cases ev)
  case (SseConnect r n)
  with assms show ?thesis by (simp add: dom_update)
next
  case (SseClose k')
  with assms dom_delete_subset [of k' "activeConnections s"] show ?thesis by auto
next
  case (WsConnect sid n)
  with assms show ?thesis by (simp add: dom_update)
next
  case (WsSubscribe sid devId types n)
  show ?thesis
  proof (cases "map_of (activeConnections s) sid")
    case None
    with assms WsSubscribe show ?thesis by (simp add: subscribe_def)
  next
    case (Some c)
    then have "sid \<in> fst ` set (activeConnections s)"
      by (metis domI dom_map_of_conv_image_fst)
    with assms WsSubscribe Some show ?thesis
      by (auto simp: subscribe_def Let_def dom_update)
  qed
next
  case (WsDisconnect sid)
  with assms dom_delete_subset [of sid "activeConnections s"] show ?thesis by auto
next
  case (Reap n)
  with assms show ?thesis by (auto simp: reap_def)
next
  case (KafkaMessage topic msg fe)
  with assms on_kafka_message_keys [of topic msg fe s]
    on_kafka_message_sse_recipients [of topic msg fe s]
  show ?thesis by auto
qed

lemma run_keeps_absent:
  assumes "k \<notin> fst ` set (activeConnections s)" "\<forall>ev \<in> set evs. \<not> registers k ev"
  shows "k \<notin> fst ` set (activeConnections (fst (run s evs)))
       \<and> k \<notin> set (sse_recipients (snd (run s evs)))"
  using assms
proof (induction evs arbitrary: s)
  case Nil
  then show ?case by simp
next
  case (Cons ev evs)
  from Cons.prems have "\<not> registers k ev" "\<forall>ev \<in> set evs. \<not> registers k ev" by simp_all
  with step_keeps_absent [OF Cons.prems(1), of ev] Cons.IH [of "fst (step s ev)"]
  show ?case by simp
qed

subsection \<open>Room keys of the subscribed topics\<close>

text \<open>
  A room key is the concatenation \<^verbatim>\<open>device_<deviceId>_<type>\<close>. It determines the device
  id and the type when neither contains an underscore, which holds for every topic the
  bridge subscribes to.
\<close>

lemma room_of_inject:
  assumes "CHR ''_'' \<notin> set devId" "CHR ''_'' \<notin> set t" "room_of devId' t' = room_of devId t"
  shows "devId' = devId \<and> t' = t"
proof -
  from assms(3) have eq: "devId' @ CHR ''_'' # t' = devId @ CHR ''_'' # t"
    by (simp add: room_of_def)
  then obtain us where
    "(devId' = devId @ us \<and> us @ CHR ''_'' # t' = CHR ''_'' # t) \<or>
     (devId' @ us = devId \<and> CHR ''_'' # t' = us @ CHR ''_'' # t)"
    by (auto simp: append_eq_append_conv2)
  then show ?thesis
  proof (elim disjE conjE)
    assume a: "devId' = devId @ us" "us @ CHR ''_'' # t' = CHR ''_'' # t"
    show ?thesis
    proof (cases us)
      case Nil
      with a show ?thesis by simp
    next
      case (Cons u us')
      with a(2) have "t = us' @ CHR ''_'' # t'" by simp
      with assms(2) show ?thesis by simp
    qed
  next
    assume a: "devId' @ us = devId" "CHR ''_'' # t' = us @ CHR ''_'' # t"
    show ?thesis
    proof (cases us)
      case Nil
      with a show ?thesis by simp
    next
      case (Cons u us')
      with a(2) have "u = CHR ''_''" by simp
      with Cons a(1) assms(1) show ?thesis by auto
    qed
  qed
qed

lemma bridge_topics_parts:
  assumes "topic \<in> set bridge_topics"
  shows "length (split_dot topic) \<ge> 3 \<and> CHR ''_'' \<notin> set (split_dot topic ! 1)
       \<and> CHR ''_'' \<notin> set (split_dot topic ! 2)"
  using assms by (auto simp: bridge_topics_def DEVICE_TYPES_def)

subsection \<open>Fan-out\<close>

lemma message_forwarded:
  assumes "heartbeat_resolves fe"
    and "messageValue \<noteq> []" "parse fe messageValue = Some d" "\<not> nullish d"
    and "length (split_dot topic) \<ge> 3"
  shows "on_kafka_message topic (Some messageValue) fe s = fan_out fe topic d s"
  using assms by (simp add: on_kafka_message_def)

text \<open>
  What a message sends when the heartbeat resolves and the payload parses, after any
  sequence of events. The envelope carries the topic, its device id and sensor type and
  the parsed payload. It is emitted to every key whose record holds a subscription to the
  room of the topic, and every socket it is emitted to has sent a \<^verbatim>\<open>subscribe\<close> for the
  device with a type list containing the sensor type. It is written to the connection
  object of every record whose key starts with \<^verbatim>\<open>sse_\<close> and whose \<^verbatim>\<open>write\<close> does not
  throw, whatever the record's type and subscriptions, and to nothing else.
\<close>

lemma fan_out_delivery:
  assumes reach: "run initial_bridge evs = (s, sent)"
    and topic: "topic \<in> set bridge_topics"
    and hb: "heartbeat_resolves fe"
    and msg: "messageValue \<noteq> []" "parse fe messageValue = Some d" "\<not> nullish d"
  shows "let devId = split_dot topic ! 1; t = split_dot topic ! 2;
             md = envelope fe topic d;
             out = snd (step s (KafkaMessage topic (Some messageValue) fe))
         in topic_m md = topic \<and> deviceId_m md = devId \<and> deviceType_m md = t \<and> data_m md = d
          \<and> (\<forall>k c. map_of (activeConnections s) k = Some c \<and>
                    room_of devId t \<in> set (subscriptions c)
                 \<longrightarrow> SensorData k md \<in> set out)
          \<and> (\<forall>sid md'. SensorData sid md' \<in> set out
                 \<longrightarrow> md' = md \<and> has_subscribed evs sid devId t)
          \<and> (\<forall>k c. map_of (activeConnections s) k = Some c \<and> is_sse_key k \<and>
                    \<not> write_throws fe (connection c)
                 \<longrightarrow> SseWrite k (connection c) md \<in> set out)
          \<and> (\<forall>k h md'. SseWrite k h md' \<in> set out
                 \<longrightarrow> md' = md \<and> is_sse_key k \<and> \<not> write_throws fe h \<and>
                     (\<exists>c. map_of (activeConnections s) k = Some c \<and> connection c = h))
          \<and> (\<forall>sid devId' ts. Subscribed sid devId' ts \<notin> set out)"
proof -
  let ?devId = "split_dot topic ! 1" and ?t = "split_dot topic ! 2"
  let ?room = "room_of ?devId ?t"
  let ?md = "envelope fe topic d"
  let ?out = "snd (step s (KafkaMessage topic (Some messageValue) fe))"
  let ?touched = "touch_subscribers ?room (clock fe) (activeConnections s)"
  note parts = bridge_topics_parts [OF topic]
  note inv = reachable_inv [OF reach]
  from inv have dist: "distinct (map fst (activeConnections s))"
    by (simp add: bridge_inv_def)
  from parts have "length (split_dot topic) \<ge> 3" by simp
  note st = message_forwarded [OF hb msg this, of s]
  have out: "?out = map (\<lambda>sid. SensorData sid ?md) (members ?room (rooms s)) @
      snd (sse_pass fe ?md ?touched)"
    by (simp add: st fan_out_def Let_def)
  have fields: "topic_m ?md = topic \<and> deviceId_m ?md = ?devId \<and> deviceType_m ?md = ?t
      \<and> data_m ?md = d"
    by (simp add: envelope_def Let_def)
  have sockets: "SensorData k ?md \<in> set ?out"
    if "map_of (activeConnections s) k = Some c" "?room \<in> set (subscriptions c)" for k c
  proof -
    from that(1) have "(k, c) \<in> set (activeConnections s)" by (rule map_of_SomeD)
    with inv that(2) have "(k, ?room) \<in> set (rooms s)"
      unfolding bridge_inv_def by force
    then have "k \<in> set (members ?room (rooms s))" by (simp add: members_iff)
    then show ?thesis unfolding out by simp
  qed
  have only: "md' = ?md \<and> has_subscribed evs sid ?devId ?t"
    if "SensorData sid md' \<in> set ?out" for sid md'
  proof -
    from that have "SensorData sid md' \<in> set (map (\<lambda>sid. SensorData sid ?md) (members ?room (rooms s)))
        \<or> SensorData sid md' \<in> set (snd (sse_pass fe ?md ?touched))"
      unfolding out by simp
    then have emitted: "md' = ?md \<and> sid \<in> set (members ?room (rooms s))"
    proof
      assume "SensorData sid md' \<in> set (map (\<lambda>sid. SensorData sid ?md) (members ?room (rooms s)))"
      then show ?thesis by auto
    next
      assume "SensorData sid md' \<in> set (snd (sse_pass fe ?md ?touched))"
      from sse_pass_only [OF this] show ?thesis by simp
    qed
    then have "(sid, ?room) \<in> set (rooms s)" by (simp add: members_iff)
    with reach have "(sid, ?room) \<in> set (rooms (fst (run initial_bridge evs)))" by simp
    from rooms_history [OF this] obtain devId' t' where
      h: "has_subscribed evs sid devId' t'" "?room = room_of devId' t'"
      by (auto simp: initial_bridge_def)
    from parts h(2) have "devId' = ?devId \<and> t' = ?t"
      by (intro room_of_inject) simp_all
    with h(1) emitted show ?thesis by simp
  qed
  have streams: "SseWrite k (connection c) ?md \<in> set ?out"
    if "map_of (activeConnections s) k = Some c" "is_sse_key k"
      "\<not> write_throws fe (connection c)" for k c
  proof -
    from that(1) have in_reg: "(k, c) \<in> set (activeConnections s)" by (rule map_of_SomeD)
    from touch_subscribers_present [OF in_reg] obtain c' where
      c': "(k, c') \<in> set ?touched" "connection c' = connection c"
      by blast
    from that(3) c'(2) have "\<not> write_throws fe (connection c')" by simp
    from sse_pass_writes [OF c'(1) that(2) this, of ?md] c'(2) show ?thesis
      unfolding out by simp
  qed
  have written: "md' = ?md \<and> is_sse_key k \<and> \<not> write_throws fe h \<and>
      (\<exists>c. map_of (activeConnections s) k = Some c \<and> connection c = h)"
    if "SseWrite k h md' \<in> set ?out" for k h md'
  proof -
    from that have "SseWrite k h md' \<in> set (snd (sse_pass fe ?md ?touched))"
      unfolding out by auto
    from sse_pass_only [OF this] obtain c' where
      c': "md' = ?md" "connection c' = h" "(k, c') \<in> set ?touched" "is_sse_key k"
        "\<not> write_throws fe h"
      by auto
    from touch_subscribers_entry [OF c'(3)] obtain c where
      c: "(k, c) \<in> set (activeConnections s)" "connection c' = connection c"
      by blast
    from dist c(1) have "map_of (activeConnections s) k = Some c" by simp
    with c(2) c' show ?thesis by simp
  qed
  have no_ack: "Subscribed sid devId' ts \<notin> set ?out" for sid devId' ts
  proof
    assume "Subscribed sid devId' ts \<in> set ?out"
    then have "Subscribed sid devId' ts \<in> set (snd (sse_pass fe ?md ?touched))"
      unfolding out by auto
    from sse_pass_only [OF this] show False by simp
  qed
  from fields sockets only streams written no_ack show ?thesis unfolding Let_def by blast
qed

lemma not_sse_key_neq: "\<not> is_sse_key k \<Longrightarrow> sse_id n \<noteq> k \<and> k \<noteq> sse_id n"
  using is_sse_key_sse_id by auto

lemma ws_keys [simp]: "\<not> is_sse_key ''ws1''" "\<not> is_sse_key ''ws2''"
  by (simp_all add: is_sse_key_def)

lemma heartrate_topic_subscribed: "''bike.000001.heartrate'' \<in> set bridge_topics"
  by (simp add: bridge_topics_def DEVICE_TYPES_def)

lemma example_fanout_env_simps [simp]:
  "parse example_fanout_env = example_parse" "\<not> write_throws example_fanout_env h"
  "clock example_fanout_env = 1700000400000" "heartbeat_resolves example_fanout_env"
  by (simp_all add: example_fanout_env_def)

lemma payload_B_complete_not_nullish [simp]: "\<not> nullish payload_B_complete"
  by (simp add: payload_B_complete_def)

lemma seven_rooms:
  "map (room_of ''000001'') DEVICE_TYPES =
     [''device_000001_heartrate'', ''device_000001_cadence'', ''device_000001_speed'',
      ''device_000001_power'', ''device_000001_resistance'', ''device_000001_incline'',
      ''device_000001_fan'']"
  by (simp add: DEVICE_TYPES_def room_of_def)

lemma example_events_state:
  "map (\<lambda>p. (fst p, connection (snd p)))
     (activeConnections (fst (run initial_bridge example_events))) =
     [(''ws1'', SocketHandle ''ws1''), (''ws2'', SocketHandle ''ws2''),
      (sse_id 1700000200000, ResponseHandle 1)]"
  "rooms (fst (run initial_bridge example_events)) =
     map (\<lambda>r. (''ws1'', r)) (map (room_of ''000001'') DEVICE_TYPES)"
  by (simp_all add: example_events_def initial_bridge_def subscribe_def default_types_def
      seven_rooms set_add_def not_sse_key_neq fresh_connection_def)

lemma example_message_forwarded:
  "on_kafka_message ''bike.000001.heartrate'' (Some message_B_complete) example_fanout_env s =
     fan_out example_fanout_env ''bike.000001.heartrate'' payload_B_complete s"
  by (rule message_forwarded) simp_all

text \<open>
  With one subscribed socket, one socket that never subscribed and one event stream, the
  message goes to the subscribed socket and to the stream.
\<close>

lemma fan_out_delivery_example:
  "ws_recipients (snd (step (fst (run initial_bridge example_events))
      (KafkaMessage ''bike.000001.heartrate'' (Some message_B_complete) example_fanout_env)))
     = [''ws1'']
   \<and> written_to (snd (step (fst (run initial_bridge example_events))
      (KafkaMessage ''bike.000001.heartrate'' (Some message_B_complete) example_fanout_env)))
     = [ResponseHandle 1]
   \<and> has_subscribed example_events ''ws1'' ''000001'' ''heartrate''"
proof -
  let ?s = "fst (run initial_bridge example_events)"
  let ?out = "snd (step ?s
      (KafkaMessage ''bike.000001.heartrate'' (Some message_B_complete) example_fanout_env))"
  have reach: "run initial_bridge example_events = (?s, snd (run initial_bridge example_events))"
    by simp
  have msg: "message_B_complete \<noteq> []"
    "parse example_fanout_env message_B_complete = Some payload_B_complete"
    "\<not> nullish payload_B_complete"
    by simp_all
  have ws: "ws_recipients ?out = [''ws1'']"
    by (simp add: example_message_forwarded fan_out_ws_recipients example_events_state
        seven_rooms members_def room_of_def)
  have "written_to ?out = map snd (filter (\<lambda>p. is_sse_key (fst p))
      (map (\<lambda>p. (fst p, connection (snd p))) (activeConnections ?s)))"
    by (simp add: example_message_forwarded fan_out_written_to filter_map comp_def)
  then have streams: "written_to ?out = [ResponseHandle 1]"
    unfolding example_events_state by simp
  from ws have "SensorData ''ws1'' (envelope example_fanout_env ''bike.000001.heartrate''
      payload_B_complete) \<in> set ?out"
    by (simp add: example_message_forwarded fan_out_def Let_def example_events_state
        seven_rooms members_def room_of_def)
  with fan_out_delivery [OF reach heartrate_topic_subscribed _ msg]
  have "has_subscribed example_events ''ws1'' ''000001'' ''heartrate''"
    unfolding Let_def by simp
  with ws streams show ?thesis by blast
qed

text \<open>
  A socket whose generated id starts with \<^verbatim>\<open>sse_\<close> is selected by the pass over the
  event streams, which goes by the key: the message is written to the socket though it
  never subscribed.
\<close>

lemma socket_with_sse_key_is_written_to:
  "snd (step (fst (run initial_bridge [WsConnect ''sse_Qx7Lk2VbN9aTfR0c'' 1700000000000]))
      (KafkaMessage ''bike.000001.heartrate'' (Some message_B_complete) example_fanout_env))
     = [SseWrite ''sse_Qx7Lk2VbN9aTfR0c'' (SocketHandle ''sse_Qx7Lk2VbN9aTfR0c'')
          (envelope example_fanout_env ''bike.000001.heartrate'' payload_B_complete)]
   \<and> \<not> has_subscribed [WsConnect ''sse_Qx7Lk2VbN9aTfR0c'' 1700000000000]
         ''sse_Qx7Lk2VbN9aTfR0c'' ''000001'' ''heartrate''"
  by (simp add: example_message_forwarded fan_out_def Let_def initial_bridge_def
      touch_subscribers_def members_def fresh_connection_def is_sse_key_def)

text \<open>A message whose heartbeat rejects is forwarded to nobody.\<close>

lemma rejected_heartbeat_forwards_nothing:
  "\<not> heartbeat_resolves fe \<Longrightarrow> step s (KafkaMessage topic msg fe) = (s, [])"
  by (simp add: on_kafka_message_def)

lemma colliding_streams_state:
  "run initial_bridge colliding_streams =
     (\<lparr>activeConnections =
         [(sse_id 1700000200000,
           fresh_connection (sse_id 1700000200000) sse (ResponseHandle 2) 1700000200000)],
       rooms = []\<rparr>, [])"
  by (simp add: colliding_streams_def initial_bridge_def prod_eq_iff)

text \<open>
  Claim C8. Every event stream is to receive each message. Two requests to
  \<^verbatim>\<open>/events\<close> handled within the same millisecond get the same key
  \<^verbatim>\<open>sse_<Date.now()>\<close>, and the record of the second replaces the record of the first in
  the registry. Neither stream is closed, the heartbeat resolves and no \<^verbatim>\<open>write\<close>
  throws; the next heart-rate message is written to the response of the second request
  only, and the first stream receives nothing.
\<close>

theorem same_millisecond_streams_collide:
  "map (\<lambda>p. (fst p, connection (snd p)))
       (activeConnections (fst (run initial_bridge colliding_streams)))
     = [(sse_id 1700000200000, ResponseHandle 2)]
   \<and> snd (step (fst (run initial_bridge colliding_streams))
        (KafkaMessage ''bike.000001.heartrate'' (Some message_B_complete) example_fanout_env))
     = [SseWrite (sse_id 1700000200000) (ResponseHandle 2)
          (envelope example_fanout_env ''bike.000001.heartrate'' payload_B_complete)]
   \<and> ResponseHandle 1 \<notin> set (written_to (snd (step (fst (run initial_bridge colliding_streams))
        (KafkaMessage ''bike.000001.heartrate'' (Some message_B_complete) example_fanout_env))))
   \<and> heartbeat_resolves example_fanout_env
   \<and> \<not> write_throws example_fanout_env (ResponseHandle 1)"
  by (simp add: colliding_streams_state example_message_forwarded fan_out_def Let_def
      touch_subscribers_def members_def fresh_connection_def)

subsection \<open>Reaper\<close>

lemma ws_recipients_depend_on_rooms:
  assumes "rooms s' = rooms s"
  shows "ws_recipients (snd (on_kafka_message topic msg fe s')) =
         ws_recipients (snd (on_kafka_message topic msg fe s))"
  using assms
  by (auto simp: on_kafka_message_def fan_out_ws_recipients split: option.splits)

text \<open>
  Claim C4, as the code has it. A record that is stale at a sweep is removed from the
  registry by that sweep, for both transports. An event stream is written to only
  through its record, so it receives nothing more, as long as no connection is
  registered under the same key again. The sweep leaves the room memberships of
  socket.io as they are, and sockets are emitted to through those rooms: the sockets that
  receive the next message are the same with and without the sweep.
\<close>

theorem reap_removes_stale:
  assumes reach: "run initial_bridge evs = (s, sent)"
    and entry: "map_of (activeConnections s) k = Some c"
    and old: "stale n c"
  shows "map_of (activeConnections (fst (step s (Reap n)))) k = None
       \<and> (\<forall>later. (\<forall>ev \<in> set later. \<not> registers k ev) \<longrightarrow>
             k \<notin> set (sse_recipients (snd (run (fst (step s (Reap n))) later))))
       \<and> rooms (fst (step s (Reap n))) = rooms s
       \<and> (\<forall>topic msg fe.
             ws_recipients (snd (step (fst (step s (Reap n))) (KafkaMessage topic msg fe))) =
             ws_recipients (snd (step s (KafkaMessage topic msg fe))))"
proof -
  from reachable_inv [OF reach] have dist: "distinct (map fst (activeConnections s))"
    by (simp add: bridge_inv_def)
  from entry old have gone: "map_of (activeConnections (fst (step s (Reap n)))) k = None"
    by (simp add: reap_def map_of_filter_distinct [OF dist])
  then have absent: "k \<notin> fst ` set (activeConnections (fst (step s (Reap n))))"
    by (simp add: map_of_eq_None_iff)
  have rooms: "rooms (fst (step s (Reap n))) = rooms s"
    by (simp add: reap_def)
  from run_keeps_absent [OF absent] gone rooms ws_recipients_depend_on_rooms [OF rooms]
  show ?thesis by simp
qed

lemma sse_connect_state:
  "run initial_bridge [SseConnect 1 1700000200000] =
     (\<lparr>activeConnections =
         [(sse_id 1700000200000,
           fresh_connection (sse_id 1700000200000) sse (ResponseHandle 1) 1700000200000)],
       rooms = []\<rparr>, [])"
  by (simp add: initial_bridge_def prod_eq_iff)

theorem reap_removes_stale_witness:
  "map_of (activeConnections (fst (run initial_bridge [SseConnect 1 1700000200000])))
     (sse_id 1700000200000) = Some (fresh_connection (sse_id 1700000200000) sse (ResponseHandle 1) 1700000200000)
   \<and> stale 1700000520000 (fresh_connection (sse_id 1700000200000) sse (ResponseHandle 1) 1700000200000)
   \<and> map_of (activeConnections (fst (step (fst (run initial_bridge [SseConnect 1 1700000200000]))
        (Reap 1700000520000)))) (sse_id 1700000200000) = None
   \<and> sse_id 1700000200000 \<notin> set (sse_recipients (snd (run
        (fst (step (fst (run initial_bridge [SseConnect 1 1700000200000])) (Reap 1700000520000)))
        [KafkaMessage ''bike.000001.heartrate'' (Some message_B_complete) example_fanout_env])))"
proof -
  let ?k = "sse_id 1700000200000"
  let ?c = "fresh_connection ?k sse (ResponseHandle 1) 1700000200000"
  have entry: "map_of (activeConnections (fst (run initial_bridge [SseConnect 1 1700000200000]))) ?k
      = Some ?c"
    by (simp add: sse_connect_state)
  have old: "stale 1700000520000 ?c"
    by (simp add: stale_def staleThreshold_def)
  have later: "\<forall>ev \<in> set [KafkaMessage ''bike.000001.heartrate'' (Some message_B_complete)
      example_fanout_env]. \<not> registers ?k ev"
    by simp
  from reap_removes_stale [OF sse_connect_state entry [unfolded sse_connect_state fst_conv] old]
    later entry old
  show ?thesis unfolding sse_connect_state fst_conv by blast
qed

text \<open>
  The claim as written fails for a socket: the socket \<^verbatim>\<open>ws1\<close> is stale at the sweep
  and removed from the registry, and the next heart-rate message is still emitted to it.
\<close>

lemma subscribed_bridge_state:
  "map_of (activeConnections subscribed_bridge) ''ws1'' =
     Some \<lparr>id_c = ''ws1'', type_c = websocket, connectedAt = 1700000000000,
           lastActivity = 1700000000000,
           subscriptions = map (room_of ''000001'') DEVICE_TYPES,
           deviceId_c = Some ''000001'', connection = SocketHandle ''ws1''\<rparr>"
  "map fst (activeConnections subscribed_bridge) = [''ws1'']"
  "rooms subscribed_bridge = map (\<lambda>r. (''ws1'', r)) (map (room_of ''000001'') DEVICE_TYPES)"
  by (simp_all add: subscribed_bridge_def initial_bridge_def subscribe_def default_types_def
      seven_rooms set_add_def fresh_connection_def)

theorem reaped_socket_still_receives:
  "map_option (stale 1700000360000) (map_of (activeConnections subscribed_bridge) ''ws1'')
     = Some True
   \<and> map_of (activeConnections reaped_bridge) ''ws1'' = None
   \<and> ws_recipients (snd (step reaped_bridge
        (KafkaMessage ''bike.000001.heartrate'' (Some message_B_complete) example_fanout_env)))
      = [''ws1'']"
proof -
  have old: "map_option (stale 1700000360000) (map_of (activeConnections subscribed_bridge) ''ws1'')
      = Some True"
    by (simp add: subscribed_bridge_state stale_def staleThreshold_def)
  have "distinct (map fst (activeConnections subscribed_bridge))"
    by (simp add: subscribed_bridge_state)
  then have gone: "map_of (activeConnections reaped_bridge) ''ws1'' = None"
    by (simp add: reaped_bridge_def reap_def map_of_filter_distinct subscribed_bridge_state
        stale_def staleThreshold_def)
  have rooms: "rooms reaped_bridge = rooms subscribed_bridge"
    by (simp add: reaped_bridge_def reap_def)
  have fwd: "on_kafka_message ''bike.000001.heartrate'' (Some message_B_complete)
      example_fanout_env reaped_bridge =
      fan_out example_fanout_env ''bike.000001.heartrate'' payload_B_complete reaped_bridge"
    by (rule message_forwarded) simp_all
  have "ws_recipients (snd (step reaped_bridge
        (KafkaMessage ''bike.000001.heartrate'' (Some message_B_complete) example_fanout_env)))
      = [''ws1'']"
    by (simp add: fwd fan_out_ws_recipients rooms subscribed_bridge_state seven_rooms
        members_def room_of_def)
  with old gone show ?thesis by blast
qed

subsection \<open>Subscribing without a type list\<close>

text \<open>
  Claim C9, as the code has it. A \<^verbatim>\<open>subscribe\<close> event without a type list, from a socket
  whose record is in the registry, subscribes the socket to the rooms of all seven sensor
  types of the device and is acknowledged with the full list. From a socket whose record
  is no longer in the registry the event is ignored: nothing changes and nothing is
  acknowledged.
\<close>

theorem subscribe_without_types:
  "(map_of (activeConnections s) sid = None \<longrightarrow>
      step s (WsSubscribe sid devId None n) = (s, []))
   \<and> (\<forall>c. map_of (activeConnections s) sid = Some c \<longrightarrow>
        snd (step s (WsSubscribe sid devId None n)) =
          [Subscribed sid devId
             [''heartrate'', ''cadence'', ''speed'', ''power'', ''resistance'', ''incline'', ''fan'']]
      \<and> (\<exists>c'. map_of (activeConnections (fst (step s (WsSubscribe sid devId None n)))) sid = Some c'
             \<and> deviceId_c c' = Some devId \<and> lastActivity c' = n
             \<and> (\<forall>t \<in> set DEVICE_TYPES. room_of devId t \<in> set (subscriptions c')))
      \<and> (\<forall>t \<in> set DEVICE_TYPES.
             (sid, room_of devId t) \<in> set (rooms (fst (step s (WsSubscribe sid devId None n))))))"
  by (auto simp: subscribe_def Let_def default_types_def update_conv' set_fold_set_add
      set_fold_join) (simp add: DEVICE_TYPES_def)

theorem subscribe_without_types_witness:
  "map_of (activeConnections (fst (step initial_bridge (WsConnect ''ws1'' 1700000000000)))) ''ws1''
     = Some (fresh_connection ''ws1'' websocket (SocketHandle ''ws1'') 1700000000000)
   \<and> snd (step (fst (step initial_bridge (WsConnect ''ws1'' 1700000000000)))
        (WsSubscribe ''ws1'' ''000001'' None 1700000000000)) =
       [Subscribed ''ws1'' ''000001''
          [''heartrate'', ''cadence'', ''speed'', ''power'', ''resistance'', ''incline'', ''fan'']]
   \<and> (''ws1'', ''device_000001_fan'') \<in> set (rooms (fst
        (step (fst (step initial_bridge (WsConnect ''ws1'' 1700000000000)))
           (WsSubscribe ''ws1'' ''000001'' None 1700000000000))))"
proof -
  let ?s = "fst (step initial_bridge (WsConnect ''ws1'' 1700000000000))"
  have entry: "map_of (activeConnections ?s) ''ws1''
      = Some (fresh_connection ''ws1'' websocket (SocketHandle ''ws1'') 1700000000000)"
    by (simp add: initial_bridge_def)
  have fan: "''fan'' \<in> set DEVICE_TYPES" "room_of ''000001'' ''fan'' = ''device_000001_fan''"
    by (simp_all add: DEVICE_TYPES_def room_of_def)
  from subscribe_without_types [of ?s "''ws1''" "''000001''" 1700000000000] entry
  have "snd (step ?s (WsSubscribe ''ws1'' ''000001'' None 1700000000000)) =
       [Subscribed ''ws1'' ''000001''
          [''heartrate'', ''cadence'', ''speed'', ''power'', ''resistance'', ''incline'', ''fan'']]
     \<and> (\<forall>t \<in> set DEVICE_TYPES. (''ws1'', room_of ''000001'' t) \<in> set (rooms (fst
          (step ?s (WsSubscribe ''ws1'' ''000001'' None 1700000000000)))))"
    by blast
  with fan entry show ?thesis by metis
qed

text \<open>
  The claim as written fails for a socket that stayed idle until the timer removed its
  record: its \<^verbatim>\<open>subscribe\<close> joins no room and gets no acknowledgement.
\<close>

theorem reaped_socket_cannot_subscribe:
  "map_of (activeConnections idle_reaped_bridge) ''ws1'' = None
   \<and> step idle_reaped_bridge (WsSubscribe ''ws1'' ''000001'' None 1700000400000) =
       (idle_reaped_bridge, [])
   \<and> rooms idle_reaped_bridge = []"
  by (simp add: idle_reaped_bridge_def initial_bridge_def reap_def stale_def staleThreshold_def
      subscribe_def)

end
